theory Spec2Isabelle
  imports Main "HOL-Library.Multiset" "HOL-Library.Char_ord" "HOL-Library.List_Lexorder"
    "HOL-Library.AList"
begin

section \<open>Roster data model\<close>

text \<open>
  A JavaScript number as an id can hold it: an integer, \<^verbatim>\<open>NaN\<close> or an infinity
  (\<^verbatim>\<open>parseInt\<close> yields no fraction). An id is such a number, or \<^verbatim>\<open>null\<close>, which is what
  a loaded document can leave in its place. \<open>strictEq\<close> is \<^verbatim>\<open>===\<close>: \<^verbatim>\<open>NaN\<close> equals
  nothing, itself included.
\<close>

datatype js_number = Num int | NaN | PosInfinity | NegInfinity

datatype id_value = IdNumber js_number | IdNull

definition strictEq :: "id_value \<Rightarrow> id_value \<Rightarrow> bool" where
  "strictEq a b = (a = b \<and> a \<noteq> IdNumber NaN)"

text \<open>
  The global \<^verbatim>\<open>appSettings\<close> object of \<^verbatim>\<open>static/js/script.js\<close>. A character is
  \<^verbatim>\<open>{name, id, selected, comment}\<close>, an account is \<^verbatim>\<open>{name, password, characters}\<close>.
  Field names carry a prefix where two records share a name or the name is a HOL constant.
  The \<^verbatim>\<open>comment\<close> property may be missing on older data, which is \<open>None\<close> here.
\<close>

record character =
  char_name :: string
  char_id :: id_value
  selected :: bool
  comment :: "string option"

record account =
  acc_name :: string
  password :: string
  characters :: "character list"

type_synonym roster = "account list"

record settings =
  gameFolder :: string
  dllFolder :: string
  accounts :: roster
  autoCycle :: bool

datatype js_error = TypeError

section \<open>Rendering: the name sort applied in place by \<^verbatim>\<open>renderUI\<close>\<close>

text \<open>
  \<^verbatim>\<open>renderUI\<close> sorts \<^verbatim>\<open>appSettings.accounts\<close> in place with
  \<^verbatim>\<open>a.name.localeCompare(b.name)\<close>, and, for each account, its characters the same way.
  \<^verbatim>\<open>Array.prototype.sort\<close> is stable. The locale's collation is a parameter: \<open>collate\<close>
  maps a string to its collation key, and \<^verbatim>\<open>a.localeCompare(b) <= 0\<close> is
  \<open>collate a \<le> collate b\<close>. The DOM that is rebuilt is not part of the state.
\<close>

definition renderUI :: "(string \<Rightarrow> 'k::linorder) \<Rightarrow> roster \<Rightarrow> roster" where
  "renderUI collate accs =
     map (\<lambda>account. account\<lparr>characters := sort_key (\<lambda>c. collate (char_name c)) (characters account)\<rparr>)
         (sort_key (\<lambda>a. collate (acc_name a)) accs)"

section \<open>Selection: the character checkbox handler\<close>

text \<open>
  Ctrl+Click: \<^verbatim>\<open>char.selected = (idx === accIndex && cidx === charIndex)\<close> for every
  character of every account.
\<close>

definition ctrlClick :: "nat \<Rightarrow> nat \<Rightarrow> roster \<Rightarrow> roster" where
  "ctrlClick accIndex charIndex accs =
     map (\<lambda>(idx, acc).
            acc\<lparr>characters :=
                  map (\<lambda>(cidx, ch). ch\<lparr>selected := (idx = accIndex \<and> cidx = charIndex)\<rparr>)
                      (enumerate 0 (characters acc))\<rparr>)
         (enumerate 0 accs)"

text \<open>
  Plain click: the radio-button behaviour inside one account. Reading
  \<^verbatim>\<open>appSettings.accounts[accIndex].characters[charIndex].selected\<close> with an index out of
  range throws a TypeError before anything is written.
\<close>

definition toggleCharacters :: "nat \<Rightarrow> bool \<Rightarrow> character list \<Rightarrow> character list" where
  "toggleCharacters charIndex intendedState chars =
     map (\<lambda>(index, ch).
            if index = charIndex then ch\<lparr>selected := intendedState\<rparr>
            else if intendedState then ch\<lparr>selected := False\<rparr>
            else ch)
         (enumerate 0 chars)"

definition plainClick :: "nat \<Rightarrow> nat \<Rightarrow> roster \<Rightarrow> js_error + roster" where
  "plainClick accIndex charIndex accs =
     (if accIndex < length accs \<and> charIndex < length (characters (accs ! accIndex)) then
        let isCurrentlySelected = selected (characters (accs ! accIndex) ! charIndex);
            intendedState = \<not> isCurrentlySelected
        in Inr (accs[accIndex := (accs ! accIndex)
                  \<lparr>characters := toggleCharacters charIndex intendedState (characters (accs ! accIndex))\<rparr>])
      else Inl TypeError)"

text \<open>
  The handler: mutate, save to local storage (a copy of the state, not modelled), re-render.
\<close>

definition checkbox_onclick ::
  "(string \<Rightarrow> 'k::linorder) \<Rightarrow> bool \<Rightarrow> nat \<Rightarrow> nat \<Rightarrow> roster \<Rightarrow> js_error + roster" where
  "checkbox_onclick collate ctrlKey accIndex charIndex accs =
     (if ctrlKey then Inr (renderUI collate (ctrlClick accIndex charIndex accs))
      else case plainClick accIndex charIndex accs of
             Inl e \<Rightarrow> Inl e
           | Inr accs' \<Rightarrow> Inr (renderUI collate accs'))"

text \<open>
  A sequence of plain clicks. A handler that throws leaves \<^verbatim>\<open>appSettings\<close> as it was and
  the next click is handled on that state.
\<close>

fun plainClicks :: "(string \<Rightarrow> 'k::linorder) \<Rightarrow> (nat \<times> nat) list \<Rightarrow> roster \<Rightarrow> roster" where
  "plainClicks collate [] accs = accs"
| "plainClicks collate ((accIndex, charIndex) # rest) accs =
     plainClicks collate rest
       (case checkbox_onclick collate False accIndex charIndex accs of
          Inl e \<Rightarrow> accs
        | Inr accs' \<Rightarrow> accs')"

text \<open>The invariant of the data model: at most one selected character in each account.\<close>

definition atMostOneSelected :: "account \<Rightarrow> bool" where
  "atMostOneSelected a = (length (filter selected (characters a)) \<le> 1)"

definition selectionInvariant :: "roster \<Rightarrow> bool" where
  "selectionInvariant accs = list_all atMostOneSelected accs"

text \<open>What is observable of an account when display order is set aside.\<close>

definition account_view :: "account \<Rightarrow> string \<times> string \<times> character multiset" where
  "account_view a = (acc_name a, password a, mset (characters a))"

definition roster_view :: "roster \<Rightarrow> (string \<times> string \<times> character multiset) multiset" where
  "roster_view accs = mset (map account_view accs)"

text \<open>The selected characters of the roster, in roster order, each with its account's name.\<close>

definition selectedOf :: "roster \<Rightarrow> (string \<times> character) list" where
  "selectedOf accs =
     concat (map (\<lambda>a. map (\<lambda>ch. (acc_name a, ch)) (filter selected (characters a))) accs)"

text \<open>
  A collation for concrete evaluations: strings compared as they are, unit by unit.
\<close>

definition codeUnitOrder :: "string \<Rightarrow> string" where
  "codeUnitOrder s = s"

section \<open>Messages shown to the operator\<close>

text \<open>
  \<^verbatim>\<open>showMessage(message, type)\<close>. The texts are the source's templates; a template's
  interpolated values are the constructor's arguments.
\<close>

datatype severity = Success | Error | Info | Warning

datatype message_text =
    SelectionsCleared
  | InvalidCharacterId
  | NoCharactersSelected
  | SpecifyBothFolders
  | CheckingForInstances
  | FailedToCloseWindows
  | ErrorManagingWindows
  | ConflictsDetected "string list"
  | LaunchingWithoutConflicts nat
  | NoConflictsOthersRunning nat
  | NoConflictsLaunching
  | BackendMessage string
  | UnknownCheckStatus string
  | ErrorCheckingConflicts string
  | LaunchPartial string "string list" "string list"
  | LaunchFailed string
  | FailedToConnect

type_synonym message = "message_text \<times> severity"

section \<open>Clearing the selection\<close>

text \<open>
  \<^verbatim>\<open>clearSelectionBtn.onclick\<close>: every selected character is deselected and the flag
  \<^verbatim>\<open>selectionCleared\<close> records whether there was one; the roster is re-rendered and the
  message is shown only when the flag is set.
\<close>

definition deselect :: "character \<Rightarrow> character" where
  "deselect ch = (if selected ch then ch\<lparr>selected := False\<rparr> else ch)"

definition clearSelection :: "roster \<Rightarrow> roster \<times> bool" where
  "clearSelection accs =
     (map (\<lambda>account. account\<lparr>characters := map deselect (characters account)\<rparr>) accs,
      list_ex (\<lambda>account. list_ex selected (characters account)) accs)"

definition clearSelectionBtn_onclick ::
  "(string \<Rightarrow> 'k::linorder) \<Rightarrow> roster \<Rightarrow> roster \<times> message list" where
  "clearSelectionBtn_onclick collate accs =
     (let (accs', selectionCleared) = clearSelection accs
      in (renderUI collate accs', if selectionCleared then [(SelectionsCleared, Info)] else []))"

section \<open>Editing the roster\<close>

text \<open>
  \<^verbatim>\<open>prompt\<close> returns the typed string, or \<^verbatim>\<open>null\<close> on cancel (\<open>None\<close>);
  \<^verbatim>\<open>!x\<close> holds for \<^verbatim>\<open>null\<close> and for the empty string. \<^verbatim>\<open>confirm\<close> returns a boolean.
  The built-ins \<^verbatim>\<open>isNaN\<close> and \<^verbatim>\<open>parseInt(_, 10)\<close> on strings are parameters of the
  handlers. For concrete evaluations, \<open>isNaN_string\<close> and \<open>parseInt10\<close> are the two
  built-ins as ECMAScript defines them on ASCII strings: \<^verbatim>\<open>isNaN\<close> converts the whole trimmed
  string with \<^verbatim>\<open>Number\<close> (empty is 0; a decimal literal with optional sign, fraction and
  exponent; \<^verbatim>\<open>Infinity\<close>; a hexadecimal, octal or binary literal), while \<^verbatim>\<open>parseInt\<close> skips
  leading white space, reads a sign and the longest run of decimal digits, and yields
  \<^verbatim>\<open>NaN\<close> when there is no digit. The value of the digits is rounded to the nearest
  double (\<open>roundToDouble\<close>: 53 significant bits, ties to even, an infinity from
  \<open>2 ^ 1024\<close> on). Negative zero is \<open>Num 0\<close>: \<^verbatim>\<open>===\<close>, the template string and
  \<^verbatim>\<open>JSON.stringify\<close> do not tell it from zero.
\<close>

function bitLength :: "int \<Rightarrow> nat" where
  "bitLength n = (if n \<le> 0 then 0 else Suc (bitLength (n div 2)))"
  by pat_completeness auto
termination
  by (relation "measure nat") auto

definition roundToDouble :: "int \<Rightarrow> int option" where
  "roundToDouble n =
     (if bitLength n \<le> 53 then Some n
      else let e = bitLength n - 53;
               q = n div 2 ^ e;
               r = n mod 2 ^ e;
               q' = (if 2 ^ (e - 1) < r \<or> (r = 2 ^ (e - 1) \<and> odd q) then q + 1 else q)
           in if 2 ^ 1024 \<le> q' * 2 ^ e then None else Some (q' * 2 ^ e))"

definition isWhiteSpace :: "char \<Rightarrow> bool" where
  "isWhiteSpace c =
     (c = CHR '' '' \<or> c = CHR 0x09 \<or> c = CHR 0x0A \<or> c = CHR 0x0B \<or> c = CHR 0x0C \<or> c = CHR 0x0D)"

definition isDecimalDigit :: "char \<Rightarrow> bool" where
  "isDecimalDigit c = (CHR ''0'' \<le> c \<and> c \<le> CHR ''9'')"

definition isHexDigit :: "char \<Rightarrow> bool" where
  "isHexDigit c =
     (isDecimalDigit c \<or> (CHR ''a'' \<le> c \<and> c \<le> CHR ''f'') \<or> (CHR ''A'' \<le> c \<and> c \<le> CHR ''F''))"

definition digitsValue :: "string \<Rightarrow> int" where
  "digitsValue ds = foldl (\<lambda>n c. 10 * n + (of_char c - 48)) 0 ds"

definition stripSign :: "string \<Rightarrow> string" where
  "stripSign s = (case s of [] \<Rightarrow> [] | c # r \<Rightarrow> if c = CHR ''-'' \<or> c = CHR ''+'' then r else s)"

definition parseInt10 :: "string \<Rightarrow> js_number" where
  "parseInt10 s =
     (let t = dropWhile isWhiteSpace s;
          ds = takeWhile isDecimalDigit (stripSign t)
      in if ds = [] then NaN
         else case roundToDouble (digitsValue ds) of
                None \<Rightarrow> if take 1 t = ''-'' then NegInfinity else PosInfinity
              | Some n \<Rightarrow> if take 1 t = ''-'' then Num (- n) else Num n)"

definition isExponentPart :: "string \<Rightarrow> bool" where
  "isExponentPart s =
     (case s of
        [] \<Rightarrow> False
      | c # r \<Rightarrow> (c = CHR ''e'' \<or> c = CHR ''E'') \<and> stripSign r \<noteq> [] \<and> list_all isDecimalDigit (stripSign r))"

definition isUnsignedDecimal :: "string \<Rightarrow> bool" where
  "isUnsignedDecimal s =
     (let whole = takeWhile isDecimalDigit s;
          afterWhole = dropWhile isDecimalDigit s;
          dotted = (take 1 afterWhole = ''.'');
          fraction = (if dotted then takeWhile isDecimalDigit (drop 1 afterWhole) else []);
          rest = (if dotted then dropWhile isDecimalDigit (drop 1 afterWhole) else afterWhole)
      in (whole \<noteq> [] \<or> fraction \<noteq> []) \<and> (rest = [] \<or> isExponentPart rest))"

definition isNonDecimalInteger :: "string \<Rightarrow> bool" where
  "isNonDecimalInteger s =
     (let prefix = take 2 s; body = drop 2 s
      in body \<noteq> [] \<and>
         ((prefix = ''0x'' \<or> prefix = ''0X'') \<and> list_all isHexDigit body \<or>
          (prefix = ''0o'' \<or> prefix = ''0O'') \<and> list_all (\<lambda>c. CHR ''0'' \<le> c \<and> c \<le> CHR ''7'') body \<or>
          (prefix = ''0b'' \<or> prefix = ''0B'') \<and> list_all (\<lambda>c. c = CHR ''0'' \<or> c = CHR ''1'') body))"

definition isNaN_string :: "string \<Rightarrow> bool" where
  "isNaN_string s =
     (let t = rev (dropWhile isWhiteSpace (rev (dropWhile isWhiteSpace s)))
      in \<not> (t = [] \<or> isNonDecimalInteger t \<or> stripSign t = ''Infinity'' \<or> isUnsignedDecimal (stripSign t)))"

definition addChar_onclick ::
  "(string \<Rightarrow> 'k::linorder) \<Rightarrow> (string \<Rightarrow> bool) \<Rightarrow> (string \<Rightarrow> js_number) \<Rightarrow>
   nat \<Rightarrow> string option \<Rightarrow> string option \<Rightarrow> roster \<Rightarrow> js_error + roster \<times> message list" where
  "addChar_onclick collate isNaN parseInt accIndex charName charId accs =
     (case charName of
        None \<Rightarrow> Inr (accs, [])
      | Some nickname \<Rightarrow>
          if nickname = [] then Inr (accs, [])
          else (case charId of
                  None \<Rightarrow> Inr (accs, [(InvalidCharacterId, Warning)])
                | Some idText \<Rightarrow>
                    if idText = [] \<or> isNaN idText then Inr (accs, [(InvalidCharacterId, Warning)])
                    else if accIndex < length accs then
                      Inr (renderUI collate
                             (accs[accIndex := (accs ! accIndex)
                                \<lparr>characters := characters (accs ! accIndex) @
                                   [\<lparr>char_name = nickname, char_id = IdNumber (parseInt idText),
                                     selected = False, comment = Some []\<rparr>]\<rparr>]), [])
                    else Inl TypeError))"

definition addAccountBtn_onclick ::
  "(string \<Rightarrow> 'k::linorder) \<Rightarrow> string option \<Rightarrow> string option \<Rightarrow> roster \<Rightarrow> roster" where
  "addAccountBtn_onclick collate accName pwd accs =
     (case accName of
        None \<Rightarrow> accs
      | Some login \<Rightarrow>
          if login = [] then accs
          else (case pwd of
                  None \<Rightarrow> accs
                | Some secret \<Rightarrow>
                    if secret = [] then accs
                    else renderUI collate
                           (accs @ [\<lparr>acc_name = login, password = secret, characters = []\<rparr>])))"

text \<open>\<^verbatim>\<open>xs.splice(i, 1)\<close>: removes the element at \<open>i\<close>, nothing when \<open>i\<close> is past the end.\<close>

definition splice1 :: "nat \<Rightarrow> 'a list \<Rightarrow> 'a list" where
  "splice1 i xs = take i xs @ drop (Suc i) xs"

definition removeChar_onclick ::
  "(string \<Rightarrow> 'k::linorder) \<Rightarrow> bool \<Rightarrow> nat \<Rightarrow> nat \<Rightarrow> roster \<Rightarrow> js_error + roster" where
  "removeChar_onclick collate confirmed accIndex charIndex accs =
     (if \<not> confirmed then Inr accs
      else if accIndex < length accs then
        Inr (renderUI collate
               (accs[accIndex := (accs ! accIndex)
                  \<lparr>characters := splice1 charIndex (characters (accs ! accIndex))\<rparr>]))
      else Inl TypeError)"

definition removeAccount_onclick ::
  "(string \<Rightarrow> 'k::linorder) \<Rightarrow> bool \<Rightarrow> nat \<Rightarrow> roster \<Rightarrow> roster" where
  "removeAccount_onclick collate confirmed accIndex accs =
     (if \<not> confirmed then accs else renderUI collate (splice1 accIndex accs))"

section \<open>Launching: \<^verbatim>\<open>launchBtn.onclick\<close>\<close>

text \<open>
  The handler talks to the backend with \<^verbatim>\<open>fetch\<close>. What it sends and shows is its trace,
  a list of effects in the order they happen; what the backend answers is an input. A
  \<^verbatim>\<open>fetch\<close> either rejects or resolves to a response with its \<^verbatim>\<open>ok\<close> flag and parsed
  body (\<^verbatim>\<open>response.json()\<close> rejecting is caught by the same handler as the fetch). Console
  output is left out. \<open>Wait\<close> is the awaited \<^verbatim>\<open>setTimeout\<close>, in milliseconds; the timer
  with which \<^verbatim>\<open>showMessage\<close> hides its box later is part of showing the message.
\<close>

record launch_character =
  accountName :: string
  accountPassword :: string
  characterId :: id_value

text \<open>An entry of \<^verbatim>\<open>accountsData\<close>: account name and (characterName, characterId) pairs.\<close>

type_synonym account_data = "string \<times> (string \<times> id_value) list"

datatype check_status = NoConflicts | ConflictsFound | CheckError | Unsupported | OtherStatus string

text \<open>
  The body of \<^verbatim>\<open>/check_and_focus_window\<close>. A missing list is the empty list
  (\<^verbatim>\<open>x || []\<close>); \<open>conflicts\<close> holds (accountName, message) pairs.
\<close>

record check_result =
  status :: check_status
  conflictedAccounts :: "string list"
  conflicts :: "(string \<times> string) list"
  runningCharacters :: "string list"
  check_message :: string

datatype launch_status = LaunchSuccess | PartialSuccess | OtherLaunchStatus string

record launch_result =
  launch_status :: launch_status
  launch_message :: string
  launched :: "string list"
  launch_errors :: "string list"

datatype 'a fetched = Rejected | Responded bool 'a

text \<open>
  The backend's answers, one per request the handler can make. The answer to
  \<^verbatim>\<open>/close_running_instances\<close> is never read, only awaited; the answer to
  \<^verbatim>\<open>/focus_launcher_window\<close> is only logged.
\<close>

record backend =
  check_response :: "check_result fetched"
  close_resolves :: bool
  recheck_response :: "check_result fetched"
  launch_response :: "launch_result fetched"

datatype effect =
    ShowMessage message_text severity
  | CheckAndFocusWindow "account_data list" "string list"
  | CloseRunningInstances "string list" "account_data list"
  | Wait nat
  | Launch string string "launch_character list"
  | FocusLauncherWindow

text \<open>A JavaScript \<^verbatim>\<open>Set\<close> of strings, in insertion order.\<close>

definition Set_add :: "'a \<Rightarrow> 'a list \<Rightarrow> 'a list" where
  "Set_add x s = (if x \<in> set s then s else s @ [x])"

definition selectedCharacters :: "roster \<Rightarrow> launch_character list" where
  "selectedCharacters accs =
     concat (map (\<lambda>account.
               map (\<lambda>ch. \<lparr>accountName = acc_name account, accountPassword = password account,
                          characterId = char_id ch\<rparr>)
                   (filter selected (characters account))) accs)"

definition selectedAccounts :: "roster \<Rightarrow> string list" where
  "selectedAccounts accs = fold Set_add (map accountName (selectedCharacters accs)) []"

definition accountsData :: "roster \<Rightarrow> account_data list" where
  "accountsData accs =
     map (\<lambda>account. (acc_name account, map (\<lambda>ch. (char_name ch, char_id ch)) (characters account))) accs"

subsection \<open>Auto-cycle: which accounts to close\<close>

text \<open>
  \<^verbatim>\<open>toLowerCase\<close> is the parameter \<open>lc\<close>. \<open>findAccount\<close> is the scan
  \<^verbatim>\<open>account.characters.some(c => c.name.toLowerCase() === runningCharName.toLowerCase())\<close>
  over the roster, first hit wins.
\<close>

definition hasCharacterNamed :: "(string \<Rightarrow> string) \<Rightarrow> string \<Rightarrow> account \<Rightarrow> bool" where
  "hasCharacterNamed lc runningCharName account =
     list_ex (\<lambda>c. lc (char_name c) = lc runningCharName) (characters account)"

definition findAccount :: "(string \<Rightarrow> string) \<Rightarrow> roster \<Rightarrow> string \<Rightarrow> account option" where
  "findAccount lc accs runningCharName = find (hasCharacterNamed lc runningCharName) accs"

definition runningCharToAccount ::
  "(string \<Rightarrow> string) \<Rightarrow> roster \<Rightarrow> string list \<Rightarrow> (string \<rightharpoonup> string)" where
  "runningCharToAccount lc accs running =
     fold (\<lambda>runningCharName m.
             case findAccount lc accs runningCharName of
               None \<Rightarrow> m
             | Some account \<Rightarrow> m(lc runningCharName \<mapsto> acc_name account))
          running Map.empty"

definition selectedCharNamesByAccount :: "roster \<Rightarrow> launch_character list \<Rightarrow> (string \<rightharpoonup> string)" where
  "selectedCharNamesByAccount accs sel =
     fold (\<lambda>char m.
             case find (\<lambda>acc. acc_name acc = accountName char) accs of
               None \<Rightarrow> m
             | Some account \<Rightarrow>
                 (case find (\<lambda>c. strictEq (char_id c) (characterId char)) (characters account) of
                    None \<Rightarrow> m
                  | Some character \<Rightarrow> m(accountName char \<mapsto> char_name character)))
          sel Map.empty"

text \<open>
  The loop over the running characters. \<^verbatim>\<open>!accountName\<close> and \<^verbatim>\<open>!selectedCharName\<close> also hold
  for an empty string.
\<close>

definition accountsToClose ::
  "(string \<Rightarrow> string) \<Rightarrow> roster \<Rightarrow> launch_character list \<Rightarrow> string list \<Rightarrow> string list" where
  "accountsToClose lc accs sel running =
     fold (\<lambda>runningCharName toClose.
             case runningCharToAccount lc accs running (lc runningCharName) of
               None \<Rightarrow> toClose
             | Some account \<Rightarrow>
                 if account = [] then toClose
                 else (case selectedCharNamesByAccount accs sel account of
                         None \<Rightarrow> Set_add account toClose
                       | Some selectedCharName \<Rightarrow>
                           if selectedCharName = [] then Set_add account toClose
                           else if lc selectedCharName \<noteq> lc runningCharName
                             then Set_add account toClose
                           else toClose))
          running []"

definition failedToClose ::
  "(string \<Rightarrow> string) \<Rightarrow> roster \<Rightarrow> string list \<Rightarrow> string list \<Rightarrow> string list" where
  "failedToClose lc accs toClose stillRunning =
     filter (\<lambda>charName.
               case findAccount lc accs charName of
                 None \<Rightarrow> False
               | Some acc \<Rightarrow> acc_name acc \<in> set toClose)
            stillRunning"

text \<open>
  The auto-cycle block: its effects, and the check result to go on with (\<open>None\<close> when the
  handler returns there).
\<close>

definition autoCycleStage ::
  "(string \<Rightarrow> string) \<Rightarrow> roster \<Rightarrow> check_result \<Rightarrow> backend \<Rightarrow> effect list \<times> check_result option" where
  "autoCycleStage lc accs checkResult be =
     (let toClose = accountsToClose lc accs (selectedCharacters accs) (runningCharacters checkResult)
      in if length toClose > 0 then
           if \<not> close_resolves be then
             ([CloseRunningInstances toClose (accountsData accs),
               ShowMessage ErrorManagingWindows Error], None)
           else
             (case recheck_response be of
                Rejected \<Rightarrow>
                  ([CloseRunningInstances toClose (accountsData accs), Wait 5000,
                    CheckAndFocusWindow (accountsData accs) (selectedAccounts accs),
                    ShowMessage ErrorManagingWindows Error], None)
              | Responded ok newCheckResult \<Rightarrow>
                  if \<not> ok then
                    ([CloseRunningInstances toClose (accountsData accs), Wait 5000,
                      CheckAndFocusWindow (accountsData accs) (selectedAccounts accs),
                      ShowMessage ErrorManagingWindows Error], None)
                  else if length (failedToClose lc accs toClose (runningCharacters newCheckResult)) > 0 then
                    ([CloseRunningInstances toClose (accountsData accs), Wait 5000,
                      CheckAndFocusWindow (accountsData accs) (selectedAccounts accs),
                      ShowMessage FailedToCloseWindows Error], None)
                  else
                    ([CloseRunningInstances toClose (accountsData accs), Wait 5000,
                      CheckAndFocusWindow (accountsData accs) (selectedAccounts accs)],
                     Some newCheckResult))
         else ([], Some checkResult))"

definition windowManagement ::
  "(string \<Rightarrow> string) \<Rightarrow> settings \<Rightarrow> check_result \<Rightarrow> backend \<Rightarrow> effect list \<times> check_result option" where
  "windowManagement lc s checkResult be =
     (if autoCycle s then autoCycleStage lc (accounts s) checkResult be else ([], Some checkResult))"

subsection \<open>The status switch and the launch request\<close>

text \<open>
  The switch on \<^verbatim>\<open>checkResult.status\<close>: the messages it shows and the characters to launch
  (\<open>None\<close> when the handler returns there).
\<close>

definition remainingCharacters :: "string list \<Rightarrow> launch_character list \<Rightarrow> launch_character list" where
  "remainingCharacters conflicted sel = filter (\<lambda>char. accountName char \<notin> set conflicted) sel"

definition statusSwitch ::
  "check_result \<Rightarrow> launch_character list \<Rightarrow> effect list \<times> launch_character list option" where
  "statusSwitch checkResult sel =
     (case status checkResult of
        ConflictsFound \<Rightarrow>
          (let remaining = remainingCharacters (conflictedAccounts checkResult) sel
           in if length remaining = 0 then
                ([ShowMessage (ConflictsDetected (map snd (conflicts checkResult))) Error], None)
              else
                ([ShowMessage (ConflictsDetected (map snd (conflicts checkResult))) Error,
                  ShowMessage (LaunchingWithoutConflicts (length remaining)) Info], Some remaining))
      | NoConflicts \<Rightarrow>
          (let runningCount = length (runningCharacters checkResult)
           in ([ShowMessage (if runningCount > 0 then NoConflictsOthersRunning runningCount
                             else NoConflictsLaunching) Info], Some sel))
      | CheckError \<Rightarrow> ([ShowMessage (BackendMessage (check_message checkResult)) Error], None)
      | Unsupported \<Rightarrow> ([ShowMessage (BackendMessage (check_message checkResult)) Error], None)
      | OtherStatus st \<Rightarrow> ([ShowMessage (UnknownCheckStatus st) Warning], Some sel))"

definition launchStage :: "settings \<Rightarrow> launch_character list \<Rightarrow> backend \<Rightarrow> effect list" where
  "launchStage s sel be =
     (if length sel > 0 then
        Launch (gameFolder s) (dllFolder s) sel #
        (case launch_response be of
           Rejected \<Rightarrow> [ShowMessage FailedToConnect Error]
         | Responded ok result \<Rightarrow>
             if ok then
               (case launch_status result of
                  LaunchSuccess \<Rightarrow>
                    [ShowMessage (BackendMessage (launch_message result)) Success, FocusLauncherWindow]
                | PartialSuccess \<Rightarrow>
                    [ShowMessage (LaunchPartial (launch_message result) (launched result)
                                    (launch_errors result)) Warning,
                     FocusLauncherWindow]
                | OtherLaunchStatus st \<Rightarrow> [])
             else
               [ShowMessage (LaunchFailed (if launch_message result = [] then ''Server error''
                                           else launch_message result)) Error])
      else [])"

definition launchBtn_onclick :: "(string \<Rightarrow> string) \<Rightarrow> settings \<Rightarrow> backend \<Rightarrow> effect list" where
  "launchBtn_onclick lc s be =
     (let sel = selectedCharacters (accounts s)
      in if length sel = 0 then [ShowMessage NoCharactersSelected Warning]
         else if gameFolder s = [] \<or> dllFolder s = [] then [ShowMessage SpecifyBothFolders Error]
         else
           ShowMessage CheckingForInstances Info #
           CheckAndFocusWindow (accountsData (accounts s)) (selectedAccounts (accounts s)) #
           (case check_response be of
              Rejected \<Rightarrow> [ShowMessage FailedToConnect Error]
            | Responded ok checkResult \<Rightarrow>
                if ok then
                  (case windowManagement lc s checkResult be of
                     (closing, None) \<Rightarrow> closing
                   | (closing, Some latest) \<Rightarrow>
                       closing @
                       (case statusSwitch latest sel of
                          (shown, None) \<Rightarrow> shown
                        | (shown, Some toLaunch) \<Rightarrow> shown @ launchStage s toLaunch be))
                else
                  [ShowMessage (ErrorCheckingConflicts
                                  (if check_message checkResult = [] then ''Unknown error''
                                   else check_message checkResult)) Error]))"

text \<open>The launch requests of a trace, and the kinds of effect the claims count.\<close>

fun launchesOf :: "effect list \<Rightarrow> (string \<times> string \<times> launch_character list) list" where
  "launchesOf [] = []"
| "launchesOf (Launch g d chars # es) = (g, d, chars) # launchesOf es"
| "launchesOf (e # es) = launchesOf es"

fun isCheck :: "effect \<Rightarrow> bool" where
  "isCheck (CheckAndFocusWindow a b) = True"
| "isCheck e = False"

fun isClose :: "effect \<Rightarrow> bool" where
  "isClose (CloseRunningInstances a b) = True"
| "isClose e = False"

fun isWait :: "effect \<Rightarrow> bool" where
  "isWait (Wait n) = True"
| "isWait e = False"

fun isMessage :: "effect \<Rightarrow> bool" where
  "isMessage (ShowMessage m t) = True"
| "isMessage e = False"

text \<open>A stretch of a trace without check, wait or close requests.\<close>

definition noWindowTraffic :: "effect list \<Rightarrow> bool" where
  "noWindowTraffic es = list_all (\<lambda>e. \<not> isCheck e \<and> \<not> isWait e \<and> \<not> isClose e) es"

text \<open>
  A lower-casing for concrete evaluations: \<^verbatim>\<open>toLowerCase\<close> as it acts on ASCII strings.
\<close>

definition asciiLower :: "string \<Rightarrow> string" where
  "asciiLower s =
     map (\<lambda>c. if CHR ''A'' \<le> c \<and> c \<le> CHR ''Z'' then char_of (of_char c + (32::nat)) else c) s"

subsection \<open>The close set in the words of the specification\<close>

text \<open>
  ``Accounts where a character is running and no character is selected, or the running
  character differs from the selected one'', a running name being matched to the roster
  without regard to case: it belongs to the first account that has a character of that name.
  These two definitions follow the specification, not the source; \<open>closeBySpec\<close> is what
  \<open>accountsToClose\<close> is compared with.
\<close>

fun owningAccount :: "(string \<Rightarrow> string) \<Rightarrow> roster \<Rightarrow> string \<Rightarrow> account option" where
  "owningAccount lc [] running = None"
| "owningAccount lc (a # rest) running =
     (if lc running \<in> set (map (\<lambda>c. lc (char_name c)) (characters a)) then Some a
      else owningAccount lc rest running)"

definition closeBySpec :: "(string \<Rightarrow> string) \<Rightarrow> roster \<Rightarrow> string list \<Rightarrow> string list" where
  "closeBySpec lc accs running =
     concat (map (\<lambda>runningCharName.
               case owningAccount lc accs runningCharName of
                 None \<Rightarrow> []
               | Some account \<Rightarrow>
                   if filter selected (characters account) = [] \<or>
                      list_ex (\<lambda>c. selected c \<and> lc (char_name c) \<noteq> lc runningCharName)
                              (characters account)
                   then [acc_name account] else [])
             running)"

text \<open>
  The rosters on which the two agree. From the data model: in each account the character
  names not empty and at most one character selected. Beyond it: account names distinct and
  not empty; in each account the character ids distinct and none of them \<^verbatim>\<open>NaN\<close>.
\<close>

definition wellFormedAccount :: "account \<Rightarrow> bool" where
  "wellFormedAccount a =
     (acc_name a \<noteq> [] \<and> distinct (map char_id (characters a)) \<and>
      list_all (\<lambda>c. char_id c \<noteq> IdNumber NaN) (characters a) \<and>
      list_all (\<lambda>c. char_name c \<noteq> []) (characters a) \<and> atMostOneSelected a)"

definition wellFormedRoster :: "roster \<Rightarrow> bool" where
  "wellFormedRoster accs = (distinct (map acc_name accs) \<and> list_all wellFormedAccount accs)"

section \<open>The preference copy page\<close>

text \<open>
  The source file whose header names \<^verbatim>\<open>static/js/preferences.js\<close> and that declares
  \<^verbatim>\<open>PREFERENCE_ITEMS\<close>. Its page state: the roster read from local storage, the
  \<^verbatim>\<open>characterLookup\<close> map (a JavaScript \<^verbatim>\<open>Map\<close>: insertion order, a repeated key keeps
  its place and takes the new value), \<^verbatim>\<open>sourceCharacterKey\<close> (empty when no source is
  chosen) and the \<^verbatim>\<open>selectedTargets\<close> set. The number formatting inside the template string
  of \<^verbatim>\<open>getCharacterKey\<close> is the parameter \<open>str\<close>.
\<close>

record lookup_entry =
  entry_accountName :: string
  entry_characterId :: id_value
  entry_characterName :: string

record prefs_state =
  prefs_accounts :: roster
  characterLookup :: "(string \<times> lookup_entry) list"
  sourceCharacterKey :: string
  selectedTargets :: "string list"

definition getCharacterKey :: "(id_value \<Rightarrow> string) \<Rightarrow> string \<Rightarrow> id_value \<Rightarrow> string" where
  "getCharacterKey str accName charId = accName @ ''::'' @ str charId"

definition rebuildCharacterLookup :: "(id_value \<Rightarrow> string) \<Rightarrow> prefs_state \<Rightarrow> prefs_state" where
  "rebuildCharacterLookup str st =
     (let lookup =
            fold (\<lambda>acc m.
                    fold (\<lambda>ch m'.
                            AList.update (getCharacterKey str (acc_name acc) (char_id ch))
                              \<lparr>entry_accountName = acc_name acc, entry_characterId = char_id ch,
                                entry_characterName =
                                  (if char_name ch = [] then ''Char '' @ str (char_id ch)
                                   else char_name ch)\<rparr> m')
                         (filter (\<lambda>ch. char_id ch \<noteq> IdNull) (characters acc)) m)
                 (filter (\<lambda>acc. acc_name acc \<noteq> []) (prefs_accounts st)) [];
          validKeys = map fst lookup;
          source = (if sourceCharacterKey st \<noteq> [] \<and> sourceCharacterKey st \<notin> set validKeys then []
                    else sourceCharacterKey st)
      in st\<lparr>characterLookup := lookup,
             sourceCharacterKey := source,
             selectedTargets := filter (\<lambda>key. key \<in> set validKeys \<and> key \<noteq> source) (selectedTargets st)\<rparr>)"

text \<open>
  \<^verbatim>\<open>initialise\<close>: the stored source key (\<^verbatim>\<open>localStorage.getItem(...) || ''\<close>), an empty
  target set, then \<^verbatim>\<open>rebuildCharacterLookup\<close>; the renders that follow change no state
  (\<^verbatim>\<open>renderSourceDropdown\<close> assigns \<^verbatim>\<open>sourceCharacterKey\<close> the value it already has).
\<close>

definition initialise :: "(id_value \<Rightarrow> string) \<Rightarrow> roster \<Rightarrow> string \<Rightarrow> prefs_state" where
  "initialise str accs storedKey =
     rebuildCharacterLookup str
       \<lparr>prefs_accounts = accs, characterLookup = [], sourceCharacterKey = storedKey, selectedTargets = []\<rparr>"

text \<open>The change handler of a target checkbox: \<^verbatim>\<open>selectedTargets.add\<close> or \<^verbatim>\<open>.delete\<close>.\<close>

definition targetCheckbox_onchange :: "string \<Rightarrow> bool \<Rightarrow> prefs_state \<Rightarrow> prefs_state" where
  "targetCheckbox_onchange key checked st =
     (if checked then st\<lparr>selectedTargets := Set_add key (selectedTargets st)\<rparr>
      else st\<lparr>selectedTargets := removeAll key (selectedTargets st)\<rparr>)"

definition setAccountSelection :: "(id_value \<Rightarrow> string) \<Rightarrow> string \<Rightarrow> bool \<Rightarrow> prefs_state \<Rightarrow> prefs_state" where
  "setAccountSelection str accName shouldSelect st =
     (case find (\<lambda>acc. acc_name acc = accName) (prefs_accounts st) of
        None \<Rightarrow> st
      | Some account \<Rightarrow>
          st\<lparr>selectedTargets :=
                fold (\<lambda>ch targets.
                        let key = getCharacterKey str accName (char_id ch)
                        in if key = sourceCharacterKey st then targets
                           else if shouldSelect then Set_add key targets
                           else removeAll key targets)
                     (characters account) (selectedTargets st)\<rparr>)"

definition handleSelectAllTargets :: "prefs_state \<Rightarrow> prefs_state" where
  "handleSelectAllTargets st =
     st\<lparr>selectedTargets :=
           fold (\<lambda>key targets. if key \<noteq> sourceCharacterKey st then Set_add key targets else targets)
                (map fst (characterLookup st)) (selectedTargets st)\<rparr>"

definition handleClearAllTargets :: "prefs_state \<Rightarrow> prefs_state" where
  "handleClearAllTargets st = st\<lparr>selectedTargets := []\<rparr>"

definition sourceCharacterSelect_onchange :: "string \<Rightarrow> prefs_state \<Rightarrow> prefs_state" where
  "sourceCharacterSelect_onchange v st =
     (if v \<noteq> [] then st\<lparr>sourceCharacterKey := v, selectedTargets := removeAll v (selectedTargets st)\<rparr>
      else st\<lparr>sourceCharacterKey := []\<rparr>)"

text \<open>
  The events of the page. \<^verbatim>\<open>renderTargetAccounts\<close> sets \<^verbatim>\<open>checkbox.disabled = isSource\<close>
  and runs after every change of the source, so the checkbox of the source character is
  disabled and fires no change event: that event is a no-op here. Keys, account names and
  select values are arbitrary strings, more than the page can produce.
\<close>

datatype prefs_event =
    TargetCheckboxChange string bool
  | AccountAllOrNone string bool
  | SelectAllTargets
  | ClearAllTargets
  | SourceChange string

fun prefs_step :: "(id_value \<Rightarrow> string) \<Rightarrow> prefs_event \<Rightarrow> prefs_state \<Rightarrow> prefs_state" where
  "prefs_step str (TargetCheckboxChange key checked) st =
     (if key = sourceCharacterKey st then st else targetCheckbox_onchange key checked st)"
| "prefs_step str (AccountAllOrNone accName shouldSelect) st = setAccountSelection str accName shouldSelect st"
| "prefs_step str SelectAllTargets st = handleSelectAllTargets st"
| "prefs_step str ClearAllTargets st = handleClearAllTargets st"
| "prefs_step str (SourceChange v) st = sourceCharacterSelect_onchange v st"

text \<open>The copy request: references are (accountName, characterId) pairs.\<close>

definition buildTargetPayload :: "prefs_state \<Rightarrow> (string \<times> id_value) list" where
  "buildTargetPayload st =
     concat (map (\<lambda>key. case map_of (characterLookup st) key of
                          None \<Rightarrow> []
                        | Some entry \<Rightarrow> [(entry_accountName entry, entry_characterId entry)])
                 (selectedTargets st))"

definition getSourcePayload :: "prefs_state \<Rightarrow> (string \<times> id_value) option" where
  "getSourcePayload st =
     (if sourceCharacterKey st = [] then None
      else case map_of (characterLookup st) (sourceCharacterKey st) of
             None \<Rightarrow> None
           | Some entry \<Rightarrow> Some (entry_accountName entry, entry_characterId entry))"

datatype prefs_message = SetPrefsPathFirst | SelectSourceCharacter | SelectPreferenceItem | ChooseTargetCharacter

record copy_request =
  prefsBasePath :: string
  copy_source :: "string \<times> id_value"
  copy_targets :: "(string \<times> id_value) list"
  copy_items :: "string list"
  createBackup :: bool

text \<open>
  \<^verbatim>\<open>handleCopyPreferences\<close> up to the request it posts to \<^verbatim>\<open>/copy_preferences\<close>, or the
  message it shows instead. \<open>basePath\<close> is the trimmed input, \<open>items\<close> the checked
  preference items.
\<close>

definition handleCopyPreferences ::
  "string \<Rightarrow> string list \<Rightarrow> bool \<Rightarrow> prefs_state \<Rightarrow> prefs_message + copy_request" where
  "handleCopyPreferences basePath items backup st =
     (if basePath = [] then Inl SetPrefsPathFirst
      else case getSourcePayload st of
             None \<Rightarrow> Inl SelectSourceCharacter
           | Some source \<Rightarrow>
               if items = [] then Inl SelectPreferenceItem
               else if buildTargetPayload st = [] then Inl ChooseTargetCharacter
               else Inr \<lparr>prefsBasePath = basePath, copy_source = source,
                         copy_targets = buildTargetPayload st, copy_items = items,
                         createBackup = backup\<rparr>)"

text \<open>
  For concrete keys: an id as the template string writes it. An integer is written in
  decimal digits, which is what JavaScript does below \<open>10 ^ 21\<close> in absolute value.
\<close>

fun decimalNat :: "nat \<Rightarrow> string" where
  "decimalNat n =
     (if n < 10 then [char_of (48 + n)] else decimalNat (n div 10) @ [char_of (48 + n mod 10)])"

fun idString :: "id_value \<Rightarrow> string" where
  "idString (IdNumber (Num i)) = (if i < 0 then CHR ''-'' # decimalNat (nat (- i)) else decimalNat (nat i))"
| "idString (IdNumber NaN) = ''NaN''"
| "idString (IdNumber PosInfinity) = ''Infinity''"
| "idString (IdNumber NegInfinity) = ''-Infinity''"
| "idString IdNull = ''null''"

text \<open>
  What the page keeps true: the source key, when there is one, is not a selected target, and
  every entry of the lookup sits under the key of its own account name and character id.
\<close>

definition prefsInvariant :: "(id_value \<Rightarrow> string) \<Rightarrow> prefs_state \<Rightarrow> bool" where
  "prefsInvariant str st =
     ((sourceCharacterKey st = [] \<or> sourceCharacterKey st \<notin> set (selectedTargets st)) \<and>
      list_all (\<lambda>(key, entry). key = getCharacterKey str (entry_accountName entry) (entry_characterId entry))
               (characterLookup st))"

section \<open>Saving and loading the configuration file\<close>

text \<open>
  The configuration file is the text \<^verbatim>\<open>JSON.stringify(appSettings, null, 2)\<close>, read back
  with \<^verbatim>\<open>JSON.parse\<close>. Both are the platform's; the document is modelled by the JSON value
  it denotes. The same values stand for the object tree \<^verbatim>\<open>JSON.parse\<close> returns and the
  migration assigns into, where a number is a \<open>js_number\<close>. An object is its list of
  properties in order, a key occurring once.
\<close>

datatype json =
    JNull
  | JBool bool
  | JNumber js_number
  | JString string
  | JArray "json list"
  | JObject "(string \<times> json) list"

text \<open>Reading a property (\<open>None\<close> is \<^verbatim>\<open>undefined\<close>) and assigning one.\<close>

fun field :: "string \<Rightarrow> json \<Rightarrow> json option" where
  "field k (JObject fs) = map_of fs k"
| "field k j = None"

fun set_field :: "string \<Rightarrow> json \<Rightarrow> json \<Rightarrow> json" where
  "set_field k v (JObject fs) = JObject (AList.update k v fs)"
| "set_field k v j = j"

subsection \<open>\<^verbatim>\<open>saveConfigBtn.onclick\<close>: the document written\<close>

text \<open>
  \<^verbatim>\<open>JSON.stringify\<close> writes \<^verbatim>\<open>null\<close> for a number that is not finite, \<^verbatim>\<open>NaN\<close> and the
  infinities, and for \<^verbatim>\<open>null\<close>.
\<close>

fun idToJSON :: "id_value \<Rightarrow> json" where
  "idToJSON (IdNumber (Num n)) = JNumber (Num n)"
| "idToJSON (IdNumber NaN) = JNull"
| "idToJSON (IdNumber PosInfinity) = JNull"
| "idToJSON (IdNumber NegInfinity) = JNull"
| "idToJSON IdNull = JNull"

definition characterToJSON :: "character \<Rightarrow> json" where
  "characterToJSON ch =
     JObject ([(''name'', JString (char_name ch)), (''id'', idToJSON (char_id ch)),
               (''selected'', JBool (selected ch))]
              @ (case comment ch of None \<Rightarrow> [] | Some c \<Rightarrow> [(''comment'', JString c)]))"

definition accountToJSON :: "account \<Rightarrow> json" where
  "accountToJSON a =
     JObject [(''name'', JString (acc_name a)), (''password'', JString (password a)),
              (''characters'', JArray (map characterToJSON (characters a)))]"

definition settingsToJSON :: "settings \<Rightarrow> json" where
  "settingsToJSON s =
     JObject [(''gameFolder'', JString (gameFolder s)), (''dllFolder'', JString (dllFolder s)),
              (''accounts'', JArray (map accountToJSON (accounts s))),
              (''autoCycle'', JBool (autoCycle s))]"

subsection \<open>\<^verbatim>\<open>reader.onload\<close>: the document read\<close>

text \<open>
  \<open>InvalidFormat\<close> is the else branch of the structure check; \<open>ErrorParsing\<close> is the
  \<^verbatim>\<open>catch\<close>, reached here by a property access on \<^verbatim>\<open>null\<close>. In both
  \<^verbatim>\<open>appSettings\<close> stays as it was. A document that passes the check is assigned to
  \<^verbatim>\<open>appSettings\<close> as it is; when it does not have the shape of the data model there is no
  typed state for it, and the model ends in \<open>OutsideDataModel\<close>.
\<close>

datatype load_error = InvalidFormat | ErrorParsing | OutsideDataModel

text \<open>The data migration: an id that is a string becomes \<^verbatim>\<open>parseInt(id, 10)\<close>.\<close>

definition migrateCharacter :: "(string \<Rightarrow> js_number) \<Rightarrow> json \<Rightarrow> json" where
  "migrateCharacter parseInt char =
     (case field ''id'' char of
        Some (JString str) \<Rightarrow> set_field ''id'' (JNumber (parseInt str)) char
      | _ \<Rightarrow> char)"

definition migrateAccount :: "(string \<Rightarrow> js_number) \<Rightarrow> json \<Rightarrow> load_error + json" where
  "migrateAccount parseInt account =
     (if account = JNull then Inl ErrorParsing
      else case field ''characters'' account of
             Some (JArray chars) \<Rightarrow>
               if JNull \<in> set chars then Inl ErrorParsing
               else Inr (set_field ''characters'' (JArray (map (migrateCharacter parseInt) chars)) account)
           | _ \<Rightarrow> Inr account)"

fun migrateAccounts :: "(string \<Rightarrow> js_number) \<Rightarrow> json list \<Rightarrow> load_error + json list" where
  "migrateAccounts parseInt [] = Inr []"
| "migrateAccounts parseInt (account # rest) =
     (case migrateAccount parseInt account of
        Inl e \<Rightarrow> Inl e
      | Inr account' \<Rightarrow>
          (case migrateAccounts parseInt rest of
             Inl e \<Rightarrow> Inl e
           | Inr rest' \<Rightarrow> Inr (account' # rest')))"

text \<open>The typed state a document stands for, when it has the shape of the data model.\<close>

fun asId :: "json \<Rightarrow> id_value option" where
  "asId (JNumber x) = Some (IdNumber x)"
| "asId JNull = Some IdNull"
| "asId j = None"

definition asCharacter :: "json \<Rightarrow> character option" where
  "asCharacter j =
     (case (field ''name'' j, Option.bind (field ''id'' j) asId, field ''selected'' j) of
        (Some (JString n), Some i, Some (JBool b)) \<Rightarrow>
          (case field ''comment'' j of
             None \<Rightarrow> Some \<lparr>char_name = n, char_id = i, selected = b, comment = None\<rparr>
           | Some (JString c) \<Rightarrow> Some \<lparr>char_name = n, char_id = i, selected = b, comment = Some c\<rparr>
           | _ \<Rightarrow> None)
      | _ \<Rightarrow> None)"

definition asAccount :: "json \<Rightarrow> account option" where
  "asAccount j =
     (case (field ''name'' j, field ''password'' j, field ''characters'' j) of
        (Some (JString n), Some (JString p), Some (JArray chars)) \<Rightarrow>
          (case those (map asCharacter chars) of
             None \<Rightarrow> None
           | Some cs \<Rightarrow> Some \<lparr>acc_name = n, password = p, characters = cs\<rparr>)
      | _ \<Rightarrow> None)"

definition asSettings :: "string \<Rightarrow> string \<Rightarrow> json list \<Rightarrow> json option \<Rightarrow> settings option" where
  "asSettings g d accs cycle =
     (case those (map asAccount accs) of
        None \<Rightarrow> None
      | Some as \<Rightarrow>
          (case cycle of
             None \<Rightarrow> Some \<lparr>gameFolder = g, dllFolder = d, accounts = as, autoCycle = False\<rparr>
           | Some (JBool b) \<Rightarrow> Some \<lparr>gameFolder = g, dllFolder = d, accounts = as, autoCycle = b\<rparr>
           | _ \<Rightarrow> None))"

definition loadConfig ::
  "(string \<Rightarrow> 'k::linorder) \<Rightarrow> (string \<Rightarrow> js_number) \<Rightarrow> json \<Rightarrow> load_error + settings" where
  "loadConfig collate parseInt loadedSettings =
     (if loadedSettings = JNull then Inl ErrorParsing
      else case (field ''gameFolder'' loadedSettings, field ''dllFolder'' loadedSettings,
                 field ''accounts'' loadedSettings) of
             (Some (JString g), Some (JString d), Some (JArray accs)) \<Rightarrow>
               (case migrateAccounts parseInt accs of
                  Inl e \<Rightarrow> Inl e
                | Inr accs' \<Rightarrow>
                    (case asSettings g d accs' (field ''autoCycle'' loadedSettings) of
                       None \<Rightarrow> Inl OutsideDataModel
                     | Some s \<Rightarrow> Inr (s\<lparr>accounts := renderUI collate (accounts s)\<rparr>)))
           | _ \<Rightarrow> Inl InvalidFormat)"

section \<open>Properties of rendering\<close>

lemma sort_key_map_commute:
  assumes "\<And>x. f (g x) = f x"
  shows "sort_key f (map g xs) = map g (sort_key f xs)"
proof (induction xs)
  case Nil
  show ?case by simp
next
  case (Cons x xs)
  have ins: "insort_key f (g x) (map g ys) = map g (insort_key f x ys)" for ys
    by (induction ys) (simp_all add: assms)
  show ?case by (simp add: Cons.IH ins)
qed

lemma account_view_sorted_chars [simp]:
  "account_view (a\<lparr>characters := sort_key f (characters a)\<rparr>) = account_view a"
  by (simp add: account_view_def)

lemma roster_view_renderUI [simp]: "roster_view (renderUI collate accs) = roster_view accs"
proof -
  have "mset (map account_view (renderUI collate accs))
        = image_mset account_view (mset (sort_key (\<lambda>a. collate (acc_name a)) accs))"
    by (simp add: renderUI_def comp_def)
  then show ?thesis by (simp add: roster_view_def)
qed

lemma atMostOneSelected_view:
  "account_view a = account_view b \<Longrightarrow> atMostOneSelected a = atMostOneSelected b"
proof -
  assume "account_view a = account_view b"
  then have "mset (characters a) = mset (characters b)" by (simp add: account_view_def)
  then have "mset (filter selected (characters a)) = mset (filter selected (characters b))"
    by (metis mset_filter)
  then have "length (filter selected (characters a)) = length (filter selected (characters b))"
    by (rule mset_eq_length)
  then show ?thesis by (simp add: atMostOneSelected_def)
qed

lemma selectionInvariant_view:
  assumes "roster_view accs = roster_view accs'"
  shows "selectionInvariant accs = selectionInvariant accs'"
proof -
  have iff: "selectionInvariant xs \<longleftrightarrow> (\<forall>v \<in># roster_view xs. size (filter_mset selected (snd (snd v))) \<le> 1)"
    for xs
    by (auto simp: selectionInvariant_def list_all_iff roster_view_def account_view_def
        atMostOneSelected_def simp flip: mset_filter size_mset)
  show ?thesis by (simp add: iff assms)
qed

lemma selectionInvariant_renderUI [simp]:
  "selectionInvariant (renderUI collate accs) = selectionInvariant accs"
  by (rule selectionInvariant_view) simp

section \<open>Plain clicks keep the selection invariant\<close>

lemma filter_selected_exclusive:
  "filter selected (map (\<lambda>(cidx, ch). ch\<lparr>selected := (cidx = c)\<rparr>) (enumerate n chars))
   = (if n \<le> c \<and> c < n + length chars then [(chars ! (c - n))\<lparr>selected := True\<rparr>] else [])"
proof (induction chars arbitrary: n)
  case Nil
  show ?case by simp
next
  case (Cons ch chars)
  show ?case
  proof (cases "n = c")
    case True
    then show ?thesis by (simp add: Cons.IH)
  next
    case False
    then show ?thesis by (auto simp: Cons.IH Suc_diff_le nth_Cons')
  qed
qed

lemma filter_selected_none:
  "filter selected (map (\<lambda>(cidx, ch). ch\<lparr>selected := False\<rparr>) (enumerate n chars)) = []"
  by (induction chars arbitrary: n) simp_all

lemma toggleCharacters_select:
  "filter selected (toggleCharacters c True chars)
   = (if c < length chars then [(chars ! c)\<lparr>selected := True\<rparr>] else [])"
proof -
  have "toggleCharacters c True chars
        = map (\<lambda>(cidx, ch). ch\<lparr>selected := (cidx = c)\<rparr>) (enumerate 0 chars)"
    unfolding toggleCharacters_def by (rule map_cong) auto
  then show ?thesis by (simp add: filter_selected_exclusive)
qed

lemma toggle_off_length:
  "length (filter selected
     (map (\<lambda>(index, ch). if index = c then ch\<lparr>selected := False\<rparr> else ch) (enumerate n chars)))
   \<le> length (filter selected chars)"
  by (induction chars arbitrary: n) (auto simp: le_SucI)

lemma toggleCharacters_deselect:
  "length (filter selected (toggleCharacters c False chars)) \<le> length (filter selected chars)"
proof -
  have "toggleCharacters c False chars
        = map (\<lambda>(index, ch). if index = c then ch\<lparr>selected := False\<rparr> else ch) (enumerate 0 chars)"
    unfolding toggleCharacters_def by (rule map_cong) auto
  then show ?thesis by (simp only: toggle_off_length)
qed

lemma atMostOneSelected_toggle:
  "atMostOneSelected a \<Longrightarrow> atMostOneSelected (a\<lparr>characters := toggleCharacters c b (characters a)\<rparr>)"
proof (cases b)
  case True
  then show ?thesis by (simp add: atMostOneSelected_def toggleCharacters_select)
next
  case False
  assume "atMostOneSelected a"
  with False toggleCharacters_deselect [of c "characters a"] show ?thesis
    by (simp add: atMostOneSelected_def)
qed

lemma selectionInvariant_update:
  "selectionInvariant accs \<Longrightarrow> atMostOneSelected a \<Longrightarrow> selectionInvariant (accs[i := a])"
  unfolding selectionInvariant_def list_all_iff
  using set_update_subset_insert [of accs i a] by auto

lemma selectionInvariant_nth:
  "selectionInvariant accs \<Longrightarrow> i < length accs \<Longrightarrow> atMostOneSelected (accs ! i)"
  by (simp add: selectionInvariant_def list_all_length)

lemma selectionInvariant_plainClick:
  assumes "selectionInvariant accs" and "plainClick i c accs = Inr accs'"
  shows "selectionInvariant accs'"
proof -
  from assms(2) have i: "i < length accs"
    by (auto simp: plainClick_def split: if_splits)
  from assms(2) obtain b where
    accs': "accs' = accs[i := (accs ! i)\<lparr>characters := toggleCharacters c b (characters (accs ! i))\<rparr>]"
    by (auto simp: plainClick_def Let_def split: if_splits)
  show ?thesis unfolding accs'
    by (intro selectionInvariant_update assms(1) atMostOneSelected_toggle selectionInvariant_nth i)
qed

lemma selectionInvariant_onclick:
  assumes "selectionInvariant accs" and "checkbox_onclick collate False i c accs = Inr accs'"
  shows "selectionInvariant accs'"
  using assms selectionInvariant_plainClick [of accs i c]
  by (auto simp: checkbox_onclick_def split: sum.splits)

lemma selectionInvariant_plainClicks:
  "selectionInvariant accs \<Longrightarrow> selectionInvariant (plainClicks collate ops accs)"
proof (induction ops arbitrary: accs)
  case Nil
  then show ?case by simp
next
  case (Cons op ops)
  obtain i c where op: "op = (i, c)" by (cases op)
  show ?case
  proof (cases "checkbox_onclick collate False i c accs")
    case (Inl e)
    with Cons op show ?thesis by simp
  next
    case (Inr accs')
    have "selectionInvariant accs'" by (rule selectionInvariant_onclick [OF Cons.prems Inr])
    with Cons.IH Inr op show ?thesis by simp
  qed
qed

lemma onclick_plain_view:
  assumes "checkbox_onclick collate False i c accs = Inr accs'"
  shows "\<exists>chars. roster_view accs' = roster_view (accs[i := (accs ! i)\<lparr>characters := chars\<rparr>])"
  using assms
  by (auto simp: checkbox_onclick_def plainClick_def Let_def split: sum.splits if_splits)

text \<open>
  Claim C1. A roster state of the data model has at most one selected character in each
  account. From such a roster, every sequence of plain clicks ends in such a roster. And a
  plain click on account \<open>i\<close> leaves every other account as it was: up to display order
  the new roster is the old one with account \<open>i\<close> alone replaced, by itself with another
  list of characters.
\<close>

theorem plain_clicks_keep_invariant:
  "(selectionInvariant accs \<longrightarrow> selectionInvariant (plainClicks collate ops accs)) \<and>
   (checkbox_onclick collate False i c accs = Inr accs' \<longrightarrow>
      (\<exists>chars. roster_view accs' = roster_view (accs[i := (accs ! i)\<lparr>characters := chars\<rparr>])))"
  using selectionInvariant_plainClicks [of accs collate ops] onclick_plain_view [of collate i c accs accs']
  by blast

theorem plain_clicks_keep_invariant_witness:
  "selectionInvariant
     [\<lparr>acc_name = ''A'', password = ''p'', characters =
         [\<lparr>char_name = ''Alice'', char_id = IdNumber (Num 1), selected = True, comment = None\<rparr>,
          \<lparr>char_name = ''Bob'', char_id = IdNumber (Num 2), selected = False, comment = None\<rparr>]\<rparr>,
      \<lparr>acc_name = ''B'', password = ''q'', characters =
         [\<lparr>char_name = ''Carl'', char_id = IdNumber (Num 3), selected = False, comment = None\<rparr>]\<rparr>]
   \<and> checkbox_onclick codeUnitOrder False 0 1
     [\<lparr>acc_name = ''A'', password = ''p'', characters =
         [\<lparr>char_name = ''Alice'', char_id = IdNumber (Num 1), selected = True, comment = None\<rparr>,
          \<lparr>char_name = ''Bob'', char_id = IdNumber (Num 2), selected = False, comment = None\<rparr>]\<rparr>,
      \<lparr>acc_name = ''B'', password = ''q'', characters =
         [\<lparr>char_name = ''Carl'', char_id = IdNumber (Num 3), selected = False, comment = None\<rparr>]\<rparr>]
     = Inr [\<lparr>acc_name = ''A'', password = ''p'', characters =
         [\<lparr>char_name = ''Alice'', char_id = IdNumber (Num 1), selected = False, comment = None\<rparr>,
          \<lparr>char_name = ''Bob'', char_id = IdNumber (Num 2), selected = True, comment = None\<rparr>]\<rparr>,
      \<lparr>acc_name = ''B'', password = ''q'', characters =
         [\<lparr>char_name = ''Carl'', char_id = IdNumber (Num 3), selected = False, comment = None\<rparr>]\<rparr>]
   \<and> selectionInvariant
     (plainClicks codeUnitOrder [(0, 1), (1, 0)]
        [\<lparr>acc_name = ''A'', password = ''p'', characters =
         [\<lparr>char_name = ''Alice'', char_id = IdNumber (Num 1), selected = True, comment = None\<rparr>,
          \<lparr>char_name = ''Bob'', char_id = IdNumber (Num 2), selected = False, comment = None\<rparr>]\<rparr>,
      \<lparr>acc_name = ''B'', password = ''q'', characters =
         [\<lparr>char_name = ''Carl'', char_id = IdNumber (Num 3), selected = False, comment = None\<rparr>]\<rparr>])"
proof -
  let ?R = "[\<lparr>acc_name = ''A'', password = ''p'', characters =
         [\<lparr>char_name = ''Alice'', char_id = IdNumber (Num 1), selected = True, comment = None\<rparr>,
          \<lparr>char_name = ''Bob'', char_id = IdNumber (Num 2), selected = False, comment = None\<rparr>]\<rparr>,
      \<lparr>acc_name = ''B'', password = ''q'', characters =
         [\<lparr>char_name = ''Carl'', char_id = IdNumber (Num 3), selected = False, comment = None\<rparr>]\<rparr>]"
  have h: "selectionInvariant ?R" by code_simp
  have click: "checkbox_onclick codeUnitOrder False 0 1 ?R
     = Inr [\<lparr>acc_name = ''A'', password = ''p'', characters =
         [\<lparr>char_name = ''Alice'', char_id = IdNumber (Num 1), selected = False, comment = None\<rparr>,
          \<lparr>char_name = ''Bob'', char_id = IdNumber (Num 2), selected = True, comment = None\<rparr>]\<rparr>,
      \<lparr>acc_name = ''B'', password = ''q'', characters =
         [\<lparr>char_name = ''Carl'', char_id = IdNumber (Num 3), selected = False, comment = None\<rparr>]\<rparr>]"
    by code_simp
  from plain_clicks_keep_invariant [where accs = ?R and collate = codeUnitOrder
      and ops = "[(0, 1), (1, 0)]" and i = 0 and c = 1] h click
  show ?thesis by blast
qed

section \<open>Ctrl+Click selects exactly the clicked character\<close>

lemma selectedOf_Cons:
  "selectedOf (a # accs) = map (\<lambda>ch. (acc_name a, ch)) (filter selected (characters a)) @ selectedOf accs"
  by (simp add: selectedOf_def)

lemma selectedOf_ctrl_enumerate:
  "selectedOf (map (\<lambda>(idx, acc).
            acc\<lparr>characters :=
                  map (\<lambda>(cidx, ch). ch\<lparr>selected := (idx = i \<and> cidx = c)\<rparr>)
                      (enumerate 0 (characters acc))\<rparr>)
         (enumerate n accs))
   = (if n \<le> i \<and> i < n + length accs \<and> c < length (characters (accs ! (i - n)))
      then [(acc_name (accs ! (i - n)), (characters (accs ! (i - n)) ! c)\<lparr>selected := True\<rparr>)]
      else [])"
proof (induction accs arbitrary: n)
  case Nil
  show ?case by (simp add: selectedOf_def)
next
  case (Cons a accs)
  show ?case
  proof (cases "n = i")
    case True
    then show ?thesis
      by (simp add: selectedOf_Cons Cons.IH filter_selected_exclusive)
  next
    case False
    then show ?thesis
      by (auto simp: selectedOf_Cons Cons.IH filter_selected_none Suc_diff_le nth_Cons')
  qed
qed

lemma selectedOf_ctrlClick:
  "i < length accs \<Longrightarrow> c < length (characters (accs ! i)) \<Longrightarrow>
   selectedOf (ctrlClick i c accs) = [(acc_name (accs ! i), (characters (accs ! i) ! c)\<lparr>selected := True\<rparr>)]"
  by (simp add: ctrlClick_def selectedOf_ctrl_enumerate)

lemma mset_selectedOf:
  "mset (selectedOf accs)
   = (\<Sum>v \<in># roster_view accs. image_mset (Pair (fst v)) (filter_mset selected (snd (snd v))))"
  by (induction accs) (simp_all add: selectedOf_def roster_view_def account_view_def)

lemma mset_selectedOf_renderUI: "mset (selectedOf (renderUI collate accs)) = mset (selectedOf accs)"
  by (simp add: mset_selectedOf)

text \<open>
  Claim C2. A Ctrl+Click on an existing character \<open>charIndex\<close> of account \<open>accIndex\<close>
  leaves exactly one selected character in the whole roster, the clicked one, whatever was
  selected before.
\<close>

theorem ctrl_click_selects_only_target:
  "accIndex < length accs \<Longrightarrow> charIndex < length (characters (accs ! accIndex)) \<Longrightarrow>
   \<exists>accs'. checkbox_onclick collate True accIndex charIndex accs = Inr accs' \<and>
      selectedOf accs'
        = [(acc_name (accs ! accIndex), (characters (accs ! accIndex) ! charIndex)\<lparr>selected := True\<rparr>)]"
proof -
  assume a: "accIndex < length accs" "charIndex < length (characters (accs ! accIndex))"
  have "mset (selectedOf (renderUI collate (ctrlClick accIndex charIndex accs)))
        = {#(acc_name (accs ! accIndex), (characters (accs ! accIndex) ! charIndex)\<lparr>selected := True\<rparr>)#}"
    by (simp add: mset_selectedOf_renderUI selectedOf_ctrlClick a)
  then show ?thesis by (simp add: checkbox_onclick_def)
qed

theorem ctrl_click_selects_only_target_witness:
  "(1::nat) < length
       [\<lparr>acc_name = ''A'', password = ''p'', characters =
          [\<lparr>char_name = ''Alice'', char_id = IdNumber (Num 1), selected = True, comment = None\<rparr>,
           \<lparr>char_name = ''Bob'', char_id = IdNumber (Num 2), selected = True, comment = None\<rparr>]\<rparr>,
        \<lparr>acc_name = ''B'', password = ''q'', characters =
          [\<lparr>char_name = ''Carl'', char_id = IdNumber (Num 3), selected = False, comment = None\<rparr>]\<rparr>]
   \<and> (\<exists>accs'. checkbox_onclick codeUnitOrder True 1 0
       [\<lparr>acc_name = ''A'', password = ''p'', characters =
          [\<lparr>char_name = ''Alice'', char_id = IdNumber (Num 1), selected = True, comment = None\<rparr>,
           \<lparr>char_name = ''Bob'', char_id = IdNumber (Num 2), selected = True, comment = None\<rparr>]\<rparr>,
        \<lparr>acc_name = ''B'', password = ''q'', characters =
          [\<lparr>char_name = ''Carl'', char_id = IdNumber (Num 3), selected = False, comment = None\<rparr>]\<rparr>] = Inr accs'
      \<and> selectedOf accs'
          = [(''B'', \<lparr>char_name = ''Carl'', char_id = IdNumber (Num 3), selected = True, comment = None\<rparr>)])"
proof -
  let ?R = "[\<lparr>acc_name = ''A'', password = ''p'', characters =
          [\<lparr>char_name = ''Alice'', char_id = IdNumber (Num 1), selected = True, comment = None\<rparr>,
           \<lparr>char_name = ''Bob'', char_id = IdNumber (Num 2), selected = True, comment = None\<rparr>]\<rparr>,
        \<lparr>acc_name = ''B'', password = ''q'', characters =
          [\<lparr>char_name = ''Carl'', char_id = IdNumber (Num 3), selected = False, comment = None\<rparr>]\<rparr>]"
  have h1: "1 < length ?R" by simp
  have h2: "0 < length (characters (?R ! 1))" by simp
  from ctrl_click_selects_only_target [OF h1 h2, of codeUnitOrder] h1
  show ?thesis by simp
qed

section \<open>Clearing the selection is idempotent\<close>

lemma renderUI_idem: "renderUI collate (renderUI collate accs) = renderUI collate accs"
proof -
  let ?sc = "\<lambda>account. account\<lparr>characters := sort_key (\<lambda>c. collate (char_name c)) (characters account)\<rparr>"
  let ?k = "\<lambda>a. collate (acc_name a)"
  have "sort_key ?k (map ?sc (sort_key ?k accs)) = map ?sc (sort_key ?k (sort_key ?k accs))"
    by (rule sort_key_map_commute) simp
  also have "sort_key ?k (sort_key ?k accs) = sort_key ?k accs"
    by (rule sort_key_id_if_sorted) simp
  finally have outer: "sort_key ?k (map ?sc (sort_key ?k accs)) = map ?sc (sort_key ?k accs)" .
  have inner: "?sc (?sc a) = ?sc a" for a
    by (simp add: sort_key_id_if_sorted)
  show ?thesis
    unfolding renderUI_def outer by (simp add: inner comp_def sort_key_id_if_sorted)
qed

lemma renderUI_map_chars:
  assumes "\<And>ch. char_name (g ch) = char_name ch"
  shows "renderUI collate (map (\<lambda>a. a\<lparr>characters := map g (characters a)\<rparr>) accs)
         = map (\<lambda>a. a\<lparr>characters := map g (characters a)\<rparr>) (renderUI collate accs)"
proof -
  let ?k = "\<lambda>a. collate (acc_name a)"
  let ?G = "\<lambda>a. a\<lparr>characters := map g (characters a)\<rparr>"
  have 1: "sort_key ?k (map ?G accs) = map ?G (sort_key ?k accs)"
    by (rule sort_key_map_commute) simp
  have 2: "sort_key (\<lambda>c. collate (char_name c)) (map g chars)
           = map g (sort_key (\<lambda>c. collate (char_name c)) chars)" for chars
    by (rule sort_key_map_commute) (simp add: assms)
  show ?thesis unfolding renderUI_def 1 by (simp add: 2 comp_def)
qed

lemma clearSelection_fst:
  "fst (clearSelection accs) = map (\<lambda>a. a\<lparr>characters := map deselect (characters a)\<rparr>) accs"
  by (simp add: clearSelection_def)

lemma clearSelection_snd:
  "snd (clearSelection accs) = list_ex (\<lambda>account. list_ex selected (characters account)) accs"
  by (simp add: clearSelection_def)

lemma deselect_idem: "deselect (deselect ch) = deselect ch"
  by (simp add: deselect_def)

lemma not_selected_deselect: "\<not> selected (deselect ch)"
  by (simp add: deselect_def)

lemma clear_after_clear_renderUI:
  "clearSelection (renderUI collate (fst (clearSelection accs)))
   = (renderUI collate (fst (clearSelection accs)), False)"
proof -
  let ?D = "\<lambda>a. a\<lparr>characters := map deselect (characters a)\<rparr>"
  have r: "renderUI collate (fst (clearSelection accs)) = map ?D (renderUI collate accs)"
    unfolding clearSelection_fst by (rule renderUI_map_chars) (simp add: deselect_def)
  have "fst (clearSelection (map ?D xs)) = map ?D xs" for xs
    by (simp add: clearSelection_fst deselect_idem comp_def)
  moreover have "snd (clearSelection (map ?D xs)) = False" for xs
    by (simp add: clearSelection_snd list_ex_iff not_selected_deselect)
  ultimately show ?thesis unfolding r by (simp add: prod_eq_iff)
qed

text \<open>
  Claim C8. Clearing the selection twice in a row gives the same roster as clearing it once,
  the second click shows no message (it reports that nothing changed), and the first click
  shows the message exactly when some character was selected.
\<close>

theorem clear_selection_idempotent:
  "clearSelectionBtn_onclick collate (fst (clearSelectionBtn_onclick collate accs))
     = (fst (clearSelectionBtn_onclick collate accs), [])
   \<and> snd (clearSelectionBtn_onclick collate accs)
     = (if list_ex (\<lambda>account. list_ex selected (characters account)) accs
        then [(SelectionsCleared, Info)] else [])"
proof -
  have f: "fst (clearSelectionBtn_onclick collate xs) = renderUI collate (fst (clearSelection xs))" for xs
    by (simp add: clearSelectionBtn_onclick_def split: prod.splits)
  have "clearSelectionBtn_onclick collate (renderUI collate (fst (clearSelection accs)))
        = (renderUI collate (fst (clearSelection accs)), [])"
    by (simp add: clearSelectionBtn_onclick_def clear_after_clear_renderUI renderUI_idem)
  moreover have "snd (clearSelectionBtn_onclick collate accs)
     = (if list_ex (\<lambda>account. list_ex selected (characters account)) accs
        then [(SelectionsCleared, Info)] else [])"
    by (simp add: clearSelectionBtn_onclick_def clearSelection_def)
  ultimately show ?thesis by (simp add: f)
qed

theorem clear_selection_idempotent_witness:
  "clearSelectionBtn_onclick codeUnitOrder
     [\<lparr>acc_name = ''A'', password = ''p'', characters =
        [\<lparr>char_name = ''Bob'', char_id = IdNumber (Num 2), selected = True, comment = None\<rparr>,
         \<lparr>char_name = ''Alice'', char_id = IdNumber (Num 1), selected = False, comment = None\<rparr>]\<rparr>]
   = ([\<lparr>acc_name = ''A'', password = ''p'', characters =
        [\<lparr>char_name = ''Alice'', char_id = IdNumber (Num 1), selected = False, comment = None\<rparr>,
         \<lparr>char_name = ''Bob'', char_id = IdNumber (Num 2), selected = False, comment = None\<rparr>]\<rparr>],
      [(SelectionsCleared, Info)])
   \<and> clearSelectionBtn_onclick codeUnitOrder
     [\<lparr>acc_name = ''A'', password = ''p'', characters =
        [\<lparr>char_name = ''Alice'', char_id = IdNumber (Num 1), selected = False, comment = None\<rparr>,
         \<lparr>char_name = ''Bob'', char_id = IdNumber (Num 2), selected = False, comment = None\<rparr>]\<rparr>]
   = ([\<lparr>acc_name = ''A'', password = ''p'', characters =
        [\<lparr>char_name = ''Alice'', char_id = IdNumber (Num 1), selected = False, comment = None\<rparr>,
         \<lparr>char_name = ''Bob'', char_id = IdNumber (Num 2), selected = False, comment = None\<rparr>]\<rparr>], [])"
proof -
  let ?R = "[\<lparr>acc_name = ''A'', password = ''p'', characters =
        [\<lparr>char_name = ''Bob'', char_id = IdNumber (Num 2), selected = True, comment = None\<rparr>,
         \<lparr>char_name = ''Alice'', char_id = IdNumber (Num 1), selected = False, comment = None\<rparr>]\<rparr>]"
  have first: "clearSelectionBtn_onclick codeUnitOrder ?R
   = ([\<lparr>acc_name = ''A'', password = ''p'', characters =
        [\<lparr>char_name = ''Alice'', char_id = IdNumber (Num 1), selected = False, comment = None\<rparr>,
         \<lparr>char_name = ''Bob'', char_id = IdNumber (Num 2), selected = False, comment = None\<rparr>]\<rparr>],
      [(SelectionsCleared, Info)])"
    by code_simp
  from clear_selection_idempotent [of codeUnitOrder ?R] show ?thesis
    unfolding first by simp
qed

section \<open>Roster edits keep the selection invariant\<close>

lemma atMostOneSelected_append_unselected:
  "atMostOneSelected a \<Longrightarrow> \<not> selected ch \<Longrightarrow>
   atMostOneSelected (a\<lparr>characters := characters a @ [ch]\<rparr>)"
  by (simp add: atMostOneSelected_def)

lemma mset_splice1: "mset (splice1 i xs) + (if i < length xs then {#xs ! i#} else {#}) = mset xs"
proof (cases "i < length xs")
  case True
  then have "xs = take i xs @ xs ! i # drop (Suc i) xs" by (rule id_take_nth_drop)
  then have "mset xs = mset (take i xs @ xs ! i # drop (Suc i) xs)" by simp
  with True show ?thesis by (simp add: splice1_def)
next
  case False
  then show ?thesis by (simp add: splice1_def)
qed

lemma mset_splice1_subset: "mset (splice1 i xs) \<subseteq># mset xs"
  using mset_splice1 [of i xs] by (metis mset_subset_eq_add_left)

lemma set_splice1_subset: "set (splice1 i xs) \<subseteq> set xs"
  by (auto simp: splice1_def dest: in_set_takeD in_set_dropD)

lemma atMostOneSelected_splice1:
  assumes "atMostOneSelected a"
  shows "atMostOneSelected (a\<lparr>characters := splice1 i (characters a)\<rparr>)"
proof -
  have "filter_mset selected (mset (splice1 i (characters a)))
        \<subseteq># filter_mset selected (mset (characters a))"
    by (rule multiset_filter_mono) (rule mset_splice1_subset)
  then have "size (filter_mset selected (mset (splice1 i (characters a))))
        \<le> size (filter_mset selected (mset (characters a)))"
    by (rule size_mset_mono)
  then have "length (filter selected (splice1 i (characters a))) \<le> length (filter selected (characters a))"
    by (simp flip: mset_filter)
  with assms show ?thesis by (simp add: atMostOneSelected_def)
qed

lemma selectionInvariant_append:
  "selectionInvariant accs \<Longrightarrow> atMostOneSelected a \<Longrightarrow> selectionInvariant (accs @ [a])"
  by (simp add: selectionInvariant_def)

lemma selectionInvariant_splice1:
  "selectionInvariant accs \<Longrightarrow> selectionInvariant (splice1 i accs)"
  unfolding selectionInvariant_def list_all_iff using set_splice1_subset [of i accs] by blast

text \<open>The selected characters after replacing one account by one with fewer characters.\<close>

lemma mset_selectedOf_append:
  "mset (selectedOf (xs @ ys)) = mset (selectedOf xs) + mset (selectedOf ys)"
  by (simp add: selectedOf_def)

lemma mset_selectedOf_update_splice1:
  assumes "i < length accs"
  shows "mset (selectedOf (accs[i := (accs ! i)\<lparr>characters := splice1 c (characters (accs ! i))\<rparr>]))
         \<subseteq># mset (selectedOf accs)"
proof -
  let ?a = "accs ! i"
  let ?a' = "?a\<lparr>characters := splice1 c (characters ?a)\<rparr>"
  let ?f = "\<lambda>a. image_mset (Pair (acc_name a)) (filter_mset selected (mset (characters a)))"
  have one: "mset (selectedOf [a]) = ?f a" for a
    by (simp add: selectedOf_def)
  have sub: "?f ?a' \<subseteq># ?f ?a"
    by (simp add: image_mset_subseteq_mono multiset_filter_mono mset_splice1_subset)
  have old: "accs = take i accs @ [?a] @ drop (Suc i) accs"
    using assms by (simp add: id_take_nth_drop [symmetric])
  have new: "accs[i := ?a'] = take i accs @ [?a'] @ drop (Suc i) accs"
    using assms by (simp add: upd_conv_take_nth_drop)
  have "mset (selectedOf (accs[i := ?a']))
        = mset (selectedOf (take i accs)) + ?f ?a' + mset (selectedOf (drop (Suc i) accs))"
    unfolding new by (simp only: mset_selectedOf_append one add.assoc)
  moreover have "mset (selectedOf accs)
        = mset (selectedOf (take i accs)) + ?f ?a + mset (selectedOf (drop (Suc i) accs))"
    by (subst old) (simp only: mset_selectedOf_append one add.assoc)
  ultimately show ?thesis using sub by (simp add: mset_subset_eq_mono_add)
qed

lemma mset_selectedOf_splice1: "mset (selectedOf (splice1 i accs)) \<subseteq># mset (selectedOf accs)"
proof (cases "i < length accs")
  case True
  then have "accs = take i accs @ [accs ! i] @ drop (Suc i) accs"
    by (simp add: id_take_nth_drop [symmetric])
  then have "mset (selectedOf accs)
      = mset (selectedOf (take i accs)) + mset (selectedOf [accs ! i]) + mset (selectedOf (drop (Suc i) accs))"
    by (metis mset_selectedOf_append add.assoc)
  then show ?thesis by (simp add: splice1_def mset_selectedOf_append)
next
  case False
  then show ?thesis by (simp add: splice1_def)
qed

lemma addChar_keeps:
  assumes "selectionInvariant accs"
  shows "case addChar_onclick collate isNaN parseInt accIndex charName charId accs of
           Inl e \<Rightarrow> True
         | Inr (accs', msgs) \<Rightarrow>
             selectionInvariant accs' \<and>
             (accs' = accs \<or>
              (\<exists>nickname idText. charName = Some nickname \<and> charId = Some idText \<and>
                 roster_view accs'
                 = roster_view (accs[accIndex := (accs ! accIndex)
                     \<lparr>characters := characters (accs ! accIndex) @
                        [\<lparr>char_name = nickname, char_id = IdNumber (parseInt idText),
                          selected = False, comment = Some []\<rparr>]\<rparr>])))"
  using assms
  by (auto simp: addChar_onclick_def selectionInvariant_update selectionInvariant_nth
      atMostOneSelected_append_unselected split: option.splits)

lemma addAccount_keeps:
  assumes "selectionInvariant accs"
  shows "selectionInvariant (addAccountBtn_onclick collate accName pwd accs) \<and>
         (addAccountBtn_onclick collate accName pwd accs = accs \<or>
          (\<exists>login secret. accName = Some login \<and> pwd = Some secret \<and>
             roster_view (addAccountBtn_onclick collate accName pwd accs)
             = roster_view (accs @ [\<lparr>acc_name = login, password = secret, characters = []\<rparr>])))"
  using assms
  by (auto simp: addAccountBtn_onclick_def selectionInvariant_append atMostOneSelected_def
      split: option.splits)

lemma removeChar_keeps:
  assumes "selectionInvariant accs"
  shows "case removeChar_onclick collate confirmed accIndex charIndex accs of
           Inl e \<Rightarrow> True
         | Inr accs' \<Rightarrow>
             selectionInvariant accs' \<and> mset (selectedOf accs') \<subseteq># mset (selectedOf accs)"
  using assms
  by (auto simp: removeChar_onclick_def selectionInvariant_update selectionInvariant_nth
      atMostOneSelected_splice1 mset_selectedOf_renderUI mset_selectedOf_update_splice1)

lemma removeAccount_keeps:
  assumes "selectionInvariant accs"
  shows "selectionInvariant (removeAccount_onclick collate confirmed accIndex accs) \<and>
         mset (selectedOf (removeAccount_onclick collate confirmed accIndex accs))
           \<subseteq># mset (selectedOf accs)"
  using assms
  by (auto simp: removeAccount_onclick_def selectionInvariant_splice1 mset_selectedOf_renderUI
      mset_selectedOf_splice1)

text \<open>
  Claim C10. Every roster edit keeps the invariant that each account has at most one selected
  character. Adding a character appends one with \<open>selected = False\<close> and an empty comment
  (or changes nothing when a prompt is cancelled or the id is rejected); adding an account
  appends one with no characters; after removing a character or an account the selected
  characters are among those selected before, so no flag was set.
\<close>

theorem roster_edits_keep_invariant:
  assumes "selectionInvariant accs"
  shows
    "(case addChar_onclick collate isNaN parseInt accIndex charName charId accs of
        Inl e \<Rightarrow> True
      | Inr (accs', msgs) \<Rightarrow>
          selectionInvariant accs' \<and>
          (accs' = accs \<or>
           (\<exists>nickname idText. charName = Some nickname \<and> charId = Some idText \<and>
              roster_view accs'
              = roster_view (accs[accIndex := (accs ! accIndex)
                  \<lparr>characters := characters (accs ! accIndex) @
                     [\<lparr>char_name = nickname, char_id = IdNumber (parseInt idText),
                       selected = False, comment = Some []\<rparr>]\<rparr>]))))
     \<and> selectionInvariant (addAccountBtn_onclick collate accName pwd accs)
     \<and> (addAccountBtn_onclick collate accName pwd accs = accs \<or>
        (\<exists>login secret. accName = Some login \<and> pwd = Some secret \<and>
           roster_view (addAccountBtn_onclick collate accName pwd accs)
           = roster_view (accs @ [\<lparr>acc_name = login, password = secret, characters = []\<rparr>])))
     \<and> (case removeChar_onclick collate confirmed i c accs of
           Inl e \<Rightarrow> True
         | Inr accs' \<Rightarrow>
             selectionInvariant accs' \<and> mset (selectedOf accs') \<subseteq># mset (selectedOf accs))
     \<and> selectionInvariant (removeAccount_onclick collate confirmed j accs)
     \<and> mset (selectedOf (removeAccount_onclick collate confirmed j accs)) \<subseteq># mset (selectedOf accs)"
  using addChar_keeps [OF assms, where collate = collate and isNaN = isNaN and parseInt = parseInt
      and accIndex = accIndex and charName = charName and charId = charId]
    addAccount_keeps [OF assms, where collate = collate and accName = accName and pwd = pwd]
    removeChar_keeps [OF assms, where collate = collate and confirmed = confirmed
      and accIndex = i and charIndex = c]
    removeAccount_keeps [OF assms, where collate = collate and confirmed = confirmed and accIndex = j]
  by blast

theorem roster_edits_keep_invariant_witness:
  "selectionInvariant
     [\<lparr>acc_name = ''A'', password = ''p'', characters =
        [\<lparr>char_name = ''Alice'', char_id = IdNumber (Num 1), selected = True, comment = None\<rparr>,
         \<lparr>char_name = ''Bob'', char_id = IdNumber (Num 2), selected = False, comment = None\<rparr>]\<rparr>]
   \<and> addChar_onclick codeUnitOrder isNaN_string parseInt10 0 (Some ''Carl'') (Some ''7'')
       [\<lparr>acc_name = ''A'', password = ''p'', characters =
        [\<lparr>char_name = ''Alice'', char_id = IdNumber (Num 1), selected = True, comment = None\<rparr>,
         \<lparr>char_name = ''Bob'', char_id = IdNumber (Num 2), selected = False, comment = None\<rparr>]\<rparr>]
     = Inr ([\<lparr>acc_name = ''A'', password = ''p'', characters =
        [\<lparr>char_name = ''Alice'', char_id = IdNumber (Num 1), selected = True, comment = None\<rparr>,
         \<lparr>char_name = ''Bob'', char_id = IdNumber (Num 2), selected = False, comment = None\<rparr>,
         \<lparr>char_name = ''Carl'', char_id = IdNumber (Num 7), selected = False, comment = Some ''''\<rparr>]\<rparr>], [])
   \<and> selectionInvariant
       [\<lparr>acc_name = ''A'', password = ''p'', characters =
        [\<lparr>char_name = ''Alice'', char_id = IdNumber (Num 1), selected = True, comment = None\<rparr>,
         \<lparr>char_name = ''Bob'', char_id = IdNumber (Num 2), selected = False, comment = None\<rparr>,
         \<lparr>char_name = ''Carl'', char_id = IdNumber (Num 7), selected = False, comment = Some ''''\<rparr>]\<rparr>]
   \<and> selectionInvariant (addAccountBtn_onclick codeUnitOrder (Some ''B'') (Some ''q'')
       [\<lparr>acc_name = ''A'', password = ''p'', characters =
        [\<lparr>char_name = ''Alice'', char_id = IdNumber (Num 1), selected = True, comment = None\<rparr>,
         \<lparr>char_name = ''Bob'', char_id = IdNumber (Num 2), selected = False, comment = None\<rparr>]\<rparr>])
   \<and> selectionInvariant (removeAccount_onclick codeUnitOrder True 0
       [\<lparr>acc_name = ''A'', password = ''p'', characters =
        [\<lparr>char_name = ''Alice'', char_id = IdNumber (Num 1), selected = True, comment = None\<rparr>,
         \<lparr>char_name = ''Bob'', char_id = IdNumber (Num 2), selected = False, comment = None\<rparr>]\<rparr>])"
proof -
  let ?R = "[\<lparr>acc_name = ''A'', password = ''p'', characters =
        [\<lparr>char_name = ''Alice'', char_id = IdNumber (Num 1), selected = True, comment = None\<rparr>,
         \<lparr>char_name = ''Bob'', char_id = IdNumber (Num 2), selected = False, comment = None\<rparr>]\<rparr>]"
  have h: "selectionInvariant ?R" by code_simp
  have add: "addChar_onclick codeUnitOrder isNaN_string parseInt10 0 (Some ''Carl'') (Some ''7'') ?R
     = Inr ([\<lparr>acc_name = ''A'', password = ''p'', characters =
        [\<lparr>char_name = ''Alice'', char_id = IdNumber (Num 1), selected = True, comment = None\<rparr>,
         \<lparr>char_name = ''Bob'', char_id = IdNumber (Num 2), selected = False, comment = None\<rparr>,
         \<lparr>char_name = ''Carl'', char_id = IdNumber (Num 7), selected = False, comment = Some ''''\<rparr>]\<rparr>], [])"
    by code_simp
  from roster_edits_keep_invariant [OF h, where collate = codeUnitOrder and isNaN = isNaN_string
      and parseInt = parseInt10 and accIndex = 0 and charName = "Some ''Carl''" and charId = "Some ''7''"
      and accName = "Some ''B''" and pwd = "Some ''q''" and confirmed = True and i = 0 and c = 0 and j = 0]
  show ?thesis unfolding add using h add by simp
qed

section \<open>The launch handler: preconditions and the status switch\<close>

lemma launchesOf_append: "launchesOf (xs @ ys) = launchesOf xs @ launchesOf ys"
  by (induction xs rule: launchesOf.induct) simp_all

lemma launchesOf_windowManagement: "launchesOf (fst (windowManagement lc s cr be)) = []"
  by (simp add: windowManagement_def autoCycleStage_def Let_def split: fetched.splits)

lemma launchesOf_statusSwitch: "launchesOf (fst (statusSwitch cr sel)) = []"
  by (simp add: statusSwitch_def Let_def split: check_status.splits)

lemma launchesOf_launchStage:
  "launchesOf (launchStage s sel be) = (if sel = [] then [] else [(gameFolder s, dllFolder s, sel)])"
  by (simp add: launchStage_def split: fetched.splits launch_status.splits)

lemma statusSwitch_conflicts:
  "status cr = ConflictsFound \<Longrightarrow>
   snd (statusSwitch cr sel)
   = (if remainingCharacters (conflictedAccounts cr) sel = [] then None
      else Some (remainingCharacters (conflictedAccounts cr) sel))"
  by (simp add: statusSwitch_def Let_def)

lemma statusSwitch_error:
  "status cr = CheckError \<or> status cr = Unsupported \<Longrightarrow> snd (statusSwitch cr sel) = None"
  by (auto simp: statusSwitch_def)

lemma launchBtn_onclick_proceeds:
  assumes "selectedCharacters (accounts s) \<noteq> []" and "gameFolder s \<noteq> []" and "dllFolder s \<noteq> []"
    and "check_response be = Responded True checkResult"
    and "snd (windowManagement lc s checkResult be) = Some latest"
  shows "launchBtn_onclick lc s be
         = ShowMessage CheckingForInstances Info
           # CheckAndFocusWindow (accountsData (accounts s)) (selectedAccounts (accounts s))
           # fst (windowManagement lc s checkResult be)
           @ fst (statusSwitch latest (selectedCharacters (accounts s)))
           @ (case snd (statusSwitch latest (selectedCharacters (accounts s))) of
                None \<Rightarrow> []
              | Some toLaunch \<Rightarrow> launchStage s toLaunch be)"
proof -
  obtain closing where wm: "windowManagement lc s checkResult be = (closing, Some latest)"
    using assms(5) by (cases "windowManagement lc s checkResult be") simp
  obtain shown go where sw: "statusSwitch latest (selectedCharacters (accounts s)) = (shown, go)"
    by (cases "statusSwitch latest (selectedCharacters (accounts s))")
  show ?thesis
    using assms(1-4) by (cases go) (simp_all add: launchBtn_onclick_def Let_def wm sw)
qed

text \<open>
  Claim C3, as stated, fails: it holds of the check result that the status switch reads, and
  the handler does not always get there. In auto-cycle mode Alice (account \<open>A\<close>) and Carl
  (account \<open>B\<close>) are selected while Bob of account \<open>A\<close> is running. The check returns
  \<open>conflicts_found\<close> for \<open>A\<close>; \<open>A\<close> is closed and the re-check returns the same, Bob
  still running. The handler stops with the could-not-close message: Carl, whose account is
  not conflicted, is not submitted.
\<close>

theorem conflicted_characters_counterexample:
  "launchBtn_onclick asciiLower
      \<lparr>gameFolder = ''C:/AO'', dllFolder = ''C:/dll'',
        accounts =
          [\<lparr>acc_name = ''A'', password = ''p'', characters =
             [\<lparr>char_name = ''Alice'', char_id = IdNumber (Num 1), selected = True, comment = None\<rparr>,
              \<lparr>char_name = ''Bob'', char_id = IdNumber (Num 2), selected = False, comment = None\<rparr>]\<rparr>,
           \<lparr>acc_name = ''B'', password = ''q'', characters =
             [\<lparr>char_name = ''Carl'', char_id = IdNumber (Num 3), selected = True, comment = None\<rparr>]\<rparr>],
        autoCycle = True\<rparr>
      \<lparr>check_response = Responded True
          \<lparr>status = ConflictsFound, conflictedAccounts = [''A''], conflicts = [(''A'', ''busy'')],
            runningCharacters = [''Bob''], check_message = ''''\<rparr>,
        close_resolves = True,
        recheck_response = Responded True
          \<lparr>status = ConflictsFound, conflictedAccounts = [''A''], conflicts = [(''A'', ''busy'')],
            runningCharacters = [''Bob''], check_message = ''''\<rparr>,
        launch_response = Rejected\<rparr>
   = [ShowMessage CheckingForInstances Info,
      CheckAndFocusWindow
        [(''A'', [(''Alice'', IdNumber (Num 1)), (''Bob'', IdNumber (Num 2))]), (''B'', [(''Carl'', IdNumber (Num 3))])]
        [''A'', ''B''],
      CloseRunningInstances [''A'']
        [(''A'', [(''Alice'', IdNumber (Num 1)), (''Bob'', IdNumber (Num 2))]), (''B'', [(''Carl'', IdNumber (Num 3))])],
      Wait 5000,
      CheckAndFocusWindow
        [(''A'', [(''Alice'', IdNumber (Num 1)), (''Bob'', IdNumber (Num 2))]), (''B'', [(''Carl'', IdNumber (Num 3))])]
        [''A'', ''B''],
      ShowMessage FailedToCloseWindows Error]
   \<and> remainingCharacters [''A'']
       (selectedCharacters
          [\<lparr>acc_name = ''A'', password = ''p'', characters =
             [\<lparr>char_name = ''Alice'', char_id = IdNumber (Num 1), selected = True, comment = None\<rparr>,
              \<lparr>char_name = ''Bob'', char_id = IdNumber (Num 2), selected = False, comment = None\<rparr>]\<rparr>,
           \<lparr>acc_name = ''B'', password = ''q'', characters =
             [\<lparr>char_name = ''Carl'', char_id = IdNumber (Num 3), selected = True, comment = None\<rparr>]\<rparr>])
     = [\<lparr>accountName = ''B'', accountPassword = ''q'', characterId = IdNumber (Num 3)\<rparr>]
   \<and> launchesOf
       (launchBtn_onclick asciiLower
          \<lparr>gameFolder = ''C:/AO'', dllFolder = ''C:/dll'',
            accounts =
              [\<lparr>acc_name = ''A'', password = ''p'', characters =
                 [\<lparr>char_name = ''Alice'', char_id = IdNumber (Num 1), selected = True, comment = None\<rparr>,
                  \<lparr>char_name = ''Bob'', char_id = IdNumber (Num 2), selected = False, comment = None\<rparr>]\<rparr>,
               \<lparr>acc_name = ''B'', password = ''q'', characters =
                 [\<lparr>char_name = ''Carl'', char_id = IdNumber (Num 3), selected = True, comment = None\<rparr>]\<rparr>],
            autoCycle = True\<rparr>
          \<lparr>check_response = Responded True
              \<lparr>status = ConflictsFound, conflictedAccounts = [''A''], conflicts = [(''A'', ''busy'')],
                runningCharacters = [''Bob''], check_message = ''''\<rparr>,
            close_resolves = True,
            recheck_response = Responded True
              \<lparr>status = ConflictsFound, conflictedAccounts = [''A''], conflicts = [(''A'', ''busy'')],
                runningCharacters = [''Bob''], check_message = ''''\<rparr>,
            launch_response = Rejected\<rparr>)
     = []"
  by code_simp

text \<open>
  Claim C3, amended. When the check is answered with an ok status and, in auto-cycle mode,
  the closing of windows does not end the handler, the status switch reads the latest check
  result (the first one, or the re-check after a closure). On \<open>conflicts_found\<close> the launch
  request carries exactly the selected characters whose account is not in
  \<open>conflictedAccounts\<close>, and there is no launch request when none is left; on \<open>error\<close>
  or \<open>unsupported\<close> there is no launch request at all.
\<close>

theorem conflicted_characters_are_skipped:
  assumes "selectedCharacters (accounts s) \<noteq> []" and "gameFolder s \<noteq> []" and "dllFolder s \<noteq> []"
    and "check_response be = Responded True checkResult"
    and "snd (windowManagement lc s checkResult be) = Some latest"
  shows "(status latest = ConflictsFound \<longrightarrow>
            launchesOf (launchBtn_onclick lc s be)
            = (if filter (\<lambda>char. accountName char \<notin> set (conflictedAccounts latest))
                         (selectedCharacters (accounts s)) = [] then []
               else [(gameFolder s, dllFolder s,
                      filter (\<lambda>char. accountName char \<notin> set (conflictedAccounts latest))
                             (selectedCharacters (accounts s)))]))
       \<and> (status latest = CheckError \<or> status latest = Unsupported \<longrightarrow>
            launchesOf (launchBtn_onclick lc s be) = [])"
proof (intro conjI impI)
  note shape = launchBtn_onclick_proceeds [OF assms]
  {
    assume st: "status latest = ConflictsFound"
    show "launchesOf (launchBtn_onclick lc s be)
            = (if filter (\<lambda>char. accountName char \<notin> set (conflictedAccounts latest))
                         (selectedCharacters (accounts s)) = [] then []
               else [(gameFolder s, dllFolder s,
                      filter (\<lambda>char. accountName char \<notin> set (conflictedAccounts latest))
                             (selectedCharacters (accounts s)))])"
      unfolding shape
      by (simp add: launchesOf_append launchesOf_windowManagement launchesOf_statusSwitch
          statusSwitch_conflicts [OF st] launchesOf_launchStage remainingCharacters_def)
  }
  {
    assume st: "status latest = CheckError \<or> status latest = Unsupported"
    show "launchesOf (launchBtn_onclick lc s be) = []"
      unfolding shape
      by (simp add: launchesOf_append launchesOf_windowManagement launchesOf_statusSwitch
          statusSwitch_error [OF st])
  }
qed

theorem conflicted_characters_are_skipped_witness:
  "launchesOf (launchBtn_onclick asciiLower
      \<lparr>gameFolder = ''C:/AO'', dllFolder = ''C:/dll'',
        accounts =
          [\<lparr>acc_name = ''A'', password = ''p'', characters =
             [\<lparr>char_name = ''Alice'', char_id = IdNumber (Num 1), selected = True, comment = None\<rparr>]\<rparr>,
           \<lparr>acc_name = ''B'', password = ''q'', characters =
             [\<lparr>char_name = ''Carl'', char_id = IdNumber (Num 3), selected = True, comment = None\<rparr>]\<rparr>],
        autoCycle = False\<rparr>
      \<lparr>check_response = Responded True
          \<lparr>status = ConflictsFound, conflictedAccounts = [''A''], conflicts = [(''A'', ''busy'')],
            runningCharacters = [''Bob''], check_message = ''''\<rparr>,
        close_resolves = True, recheck_response = Rejected, launch_response = Rejected\<rparr>)
   = [(''C:/AO'', ''C:/dll'', [\<lparr>accountName = ''B'', accountPassword = ''q'', characterId = IdNumber (Num 3)\<rparr>])]
   \<and> launchesOf (launchBtn_onclick asciiLower
      \<lparr>gameFolder = ''C:/AO'', dllFolder = ''C:/dll'',
        accounts =
          [\<lparr>acc_name = ''A'', password = ''p'', characters =
             [\<lparr>char_name = ''Alice'', char_id = IdNumber (Num 1), selected = True, comment = None\<rparr>]\<rparr>,
           \<lparr>acc_name = ''B'', password = ''q'', characters =
             [\<lparr>char_name = ''Carl'', char_id = IdNumber (Num 3), selected = True, comment = None\<rparr>]\<rparr>],
        autoCycle = False\<rparr>
      \<lparr>check_response = Responded True
          \<lparr>status = Unsupported, conflictedAccounts = [], conflicts = [],
            runningCharacters = [], check_message = ''Windows only''\<rparr>,
        close_resolves = True, recheck_response = Rejected, launch_response = Rejected\<rparr>)
   = []"
proof -
  let ?s = "\<lparr>gameFolder = ''C:/AO'', dllFolder = ''C:/dll'',
        accounts =
          [\<lparr>acc_name = ''A'', password = ''p'', characters =
             [\<lparr>char_name = ''Alice'', char_id = IdNumber (Num 1), selected = True, comment = None\<rparr>]\<rparr>,
           \<lparr>acc_name = ''B'', password = ''q'', characters =
             [\<lparr>char_name = ''Carl'', char_id = IdNumber (Num 3), selected = True, comment = None\<rparr>]\<rparr>],
        autoCycle = False\<rparr>"
  let ?c1 = "\<lparr>status = ConflictsFound, conflictedAccounts = [''A''], conflicts = [(''A'', ''busy'')],
            runningCharacters = [''Bob''], check_message = ''''\<rparr>"
  let ?c2 = "\<lparr>status = Unsupported, conflictedAccounts = [], conflicts = [],
            runningCharacters = [], check_message = ''Windows only''\<rparr>"
  let ?b1 = "\<lparr>check_response = Responded True ?c1,
        close_resolves = True, recheck_response = Rejected, launch_response = Rejected\<rparr>"
  let ?b2 = "\<lparr>check_response = Responded True ?c2,
        close_resolves = True, recheck_response = Rejected, launch_response = Rejected\<rparr>"
  have h1: "selectedCharacters (accounts ?s) \<noteq> []" by (simp add: selectedCharacters_def)
  have h2: "gameFolder ?s \<noteq> []" and h3: "dllFolder ?s \<noteq> []" by simp_all
  have h4: "check_response ?b1 = Responded True ?c1" by simp
  have h5: "snd (windowManagement asciiLower ?s ?c1 ?b1) = Some ?c1"
    by (simp add: windowManagement_def)
  have h4': "check_response ?b2 = Responded True ?c2" by simp
  have h5': "snd (windowManagement asciiLower ?s ?c2 ?b2) = Some ?c2"
    by (simp add: windowManagement_def)
  from conflicted_characters_are_skipped [OF h1 h2 h3 h4 h5]
    conflicted_characters_are_skipped [OF h1 h2 h3 h4' h5']
  show ?thesis by (simp add: selectedCharacters_def)
qed

text \<open>
  Claim C6. With an empty selection, or with the game folder or the DLL folder empty, the
  whole trace of the handler is one message: no conflict check, no close request and no
  launch request are made.
\<close>

theorem launch_preconditions_fail_fast:
  assumes "selectedCharacters (accounts s) = [] \<or> gameFolder s = [] \<or> dllFolder s = []"
  shows "launchBtn_onclick lc s be
         = [if selectedCharacters (accounts s) = [] then ShowMessage NoCharactersSelected Warning
            else ShowMessage SpecifyBothFolders Error]
       \<and> filter isCheck (launchBtn_onclick lc s be) = []
       \<and> filter isClose (launchBtn_onclick lc s be) = []
       \<and> launchesOf (launchBtn_onclick lc s be) = []"
  using assms by (auto simp: launchBtn_onclick_def Let_def)

theorem launch_preconditions_fail_fast_witness:
  "launchBtn_onclick asciiLower
      \<lparr>gameFolder = ''C:/AO'', dllFolder = '''',
        accounts =
          [\<lparr>acc_name = ''A'', password = ''p'', characters =
             [\<lparr>char_name = ''Alice'', char_id = IdNumber (Num 1), selected = True, comment = None\<rparr>]\<rparr>],
        autoCycle = True\<rparr>
      \<lparr>check_response = Rejected, close_resolves = True, recheck_response = Rejected,
        launch_response = Rejected\<rparr>
   = [ShowMessage SpecifyBothFolders Error]"
proof -
  let ?s = "\<lparr>gameFolder = ''C:/AO'', dllFolder = '''',
        accounts =
          [\<lparr>acc_name = ''A'', password = ''p'', characters =
             [\<lparr>char_name = ''Alice'', char_id = IdNumber (Num 1), selected = True, comment = None\<rparr>]\<rparr>],
        autoCycle = True\<rparr>"
  have h: "selectedCharacters (accounts ?s) = [] \<or> gameFolder ?s = [] \<or> dllFolder ?s = []"
    by simp
  have sel: "selectedCharacters (accounts ?s) \<noteq> []"
    by (simp add: selectedCharacters_def)
  from launch_preconditions_fail_fast [OF h] sel show ?thesis by simp
qed

section \<open>The shape of the handler's trace\<close>

lemma noWindowTraffic_append:
  "noWindowTraffic (xs @ ys) = (noWindowTraffic xs \<and> noWindowTraffic ys)"
  by (simp add: noWindowTraffic_def)

lemma noWindowTraffic_statusSwitch: "noWindowTraffic (fst (statusSwitch cr sel))"
  by (simp add: statusSwitch_def noWindowTraffic_def Let_def split: check_status.splits)

lemma noWindowTraffic_launchStage: "noWindowTraffic (launchStage s sel be)"
  by (simp add: launchStage_def noWindowTraffic_def split: fetched.splits launch_status.splits)

lemma noWindowTraffic_counts:
  "noWindowTraffic es \<Longrightarrow> filter isCheck es = [] \<and> filter isWait es = [] \<and> filter isClose es = []"
  by (induction es) (simp_all add: noWindowTraffic_def)

text \<open>What follows the first check: the auto-cycle block's effects, then quiet effects.\<close>

lemma afterStatus_quiet:
  "noWindowTraffic (case statusSwitch latest sel of
                      (shown, None) \<Rightarrow> shown
                    | (shown, Some toLaunch) \<Rightarrow> shown @ launchStage s toLaunch be)"
proof -
  obtain shown go where sw: "statusSwitch latest sel = (shown, go)"
    by (cases "statusSwitch latest sel")
  have "noWindowTraffic shown" using noWindowTraffic_statusSwitch [of latest sel] by (simp add: sw)
  then show ?thesis
    by (cases go) (simp_all add: sw noWindowTraffic_append noWindowTraffic_launchStage)
qed

lemma autoCycleStage_shapes:
  "fst (autoCycleStage lc accs cr be) = [] \<or>
   (\<not> close_resolves be \<and>
    fst (autoCycleStage lc accs cr be)
    = [CloseRunningInstances (accountsToClose lc accs (selectedCharacters accs) (runningCharacters cr))
         (accountsData accs),
       ShowMessage ErrorManagingWindows Error] \<and> snd (autoCycleStage lc accs cr be) = None) \<or>
   (close_resolves be \<and>
    (\<exists>post. fst (autoCycleStage lc accs cr be)
       = [CloseRunningInstances (accountsToClose lc accs (selectedCharacters accs) (runningCharacters cr))
            (accountsData accs),
          Wait 5000,
          CheckAndFocusWindow (accountsData accs) (selectedAccounts accs)] @ post
       \<and> noWindowTraffic post))"
  by (simp add: autoCycleStage_def Let_def noWindowTraffic_def split: fetched.splits)

lemma launchBtn_onclick_shapes:
  fixes lc s be
  defines "t \<equiv> launchBtn_onclick lc s be"
    and "m \<equiv> ShowMessage CheckingForInstances Info"
    and "chk \<equiv> CheckAndFocusWindow (accountsData (accounts s)) (selectedAccounts (accounts s))"
  shows "noWindowTraffic t \<or>
   (\<exists>rest. t = m # chk # rest \<and> noWindowTraffic rest) \<or>
   (\<exists>toClose. \<not> close_resolves be \<and>
      t = [m, chk, CloseRunningInstances toClose (accountsData (accounts s)),
           ShowMessage ErrorManagingWindows Error]) \<or>
   (\<exists>toClose post. close_resolves be \<and>
      t = [m, chk, CloseRunningInstances toClose (accountsData (accounts s)), Wait 5000, chk] @ post \<and>
      noWindowTraffic post)"
proof (cases "selectedCharacters (accounts s) = [] \<or> gameFolder s = [] \<or> dllFolder s = []")
  case True
  then have "noWindowTraffic t"
    by (auto simp: t_def launchBtn_onclick_def Let_def noWindowTraffic_def)
  then show ?thesis by blast
next
  case pre: False
  show ?thesis
  proof (cases "check_response be")
    case Rejected
    with pre have "t = m # chk # [ShowMessage FailedToConnect Error]"
      by (simp add: t_def m_def chk_def launchBtn_onclick_def Let_def)
    moreover have "noWindowTraffic [ShowMessage FailedToConnect Error]"
      by (simp add: noWindowTraffic_def)
    ultimately show ?thesis by blast
  next
    case (Responded ok cr)
    show ?thesis
    proof (cases ok)
      case False
      with pre Responded have "\<exists>x. t = m # chk # [ShowMessage x Error]"
        by (simp add: t_def m_def chk_def launchBtn_onclick_def Let_def)
      then obtain x where "t = m # chk # [ShowMessage x Error]" ..
      moreover have "noWindowTraffic [ShowMessage x Error]"
        by (simp add: noWindowTraffic_def)
      ultimately show ?thesis by blast
    next
      case True
      obtain closing r where wm: "windowManagement lc s cr be = (closing, r)"
        by (cases "windowManagement lc s cr be")
      define tail where "tail = (case r of None \<Rightarrow> [] | Some latest \<Rightarrow>
                     (case statusSwitch latest (selectedCharacters (accounts s)) of
                        (shown, None) \<Rightarrow> shown
                      | (shown, Some toLaunch) \<Rightarrow> shown @ launchStage s toLaunch be))"
      have tail: "noWindowTraffic tail"
        unfolding tail_def by (cases r) (simp_all add: afterStatus_quiet, simp add: noWindowTraffic_def)
      have trace: "t = m # chk # (closing @ tail)"
        using pre Responded True unfolding tail_def t_def m_def chk_def
        by (cases r) (simp_all add: launchBtn_onclick_def Let_def wm)
      show ?thesis
      proof (cases "autoCycle s")
        case False
        then have "closing = []" using wm by (simp add: windowManagement_def)
        with trace tail have "t = m # chk # tail \<and> noWindowTraffic tail" by simp
        then show ?thesis by blast
      next
        case ac: True
        then have closing: "closing = fst (autoCycleStage lc (accounts s) cr be)"
          and r: "r = snd (autoCycleStage lc (accounts s) cr be)"
          using wm by (simp_all add: windowManagement_def)
        from autoCycleStage_shapes [of lc "accounts s" cr be] show ?thesis
        proof (elim disjE conjE exE)
          assume "fst (autoCycleStage lc (accounts s) cr be) = []"
          with trace tail closing have "t = m # chk # tail \<and> noWindowTraffic tail" by simp
          then show ?thesis by blast
        next
          assume nr: "\<not> close_resolves be"
            and eq: "fst (autoCycleStage lc (accounts s) cr be)
              = [CloseRunningInstances
                   (accountsToClose lc (accounts s) (selectedCharacters (accounts s)) (runningCharacters cr))
                   (accountsData (accounts s)),
                 ShowMessage ErrorManagingWindows Error]"
            and none: "snd (autoCycleStage lc (accounts s) cr be) = None"
          have "tail = []" using none r by (simp add: tail_def)
          with trace closing eq
          have "t = [m, chk, CloseRunningInstances
                   (accountsToClose lc (accounts s) (selectedCharacters (accounts s)) (runningCharacters cr))
                   (accountsData (accounts s)), ShowMessage ErrorManagingWindows Error]"
            by simp
          with nr show ?thesis by blast
        next
          fix post
          assume cl: "close_resolves be"
            and eq: "fst (autoCycleStage lc (accounts s) cr be)
              = [CloseRunningInstances
                   (accountsToClose lc (accounts s) (selectedCharacters (accounts s)) (runningCharacters cr))
                   (accountsData (accounts s)),
                 Wait 5000,
                 CheckAndFocusWindow (accountsData (accounts s)) (selectedAccounts (accounts s))] @ post"
            and q: "noWindowTraffic post"
          have quiet: "noWindowTraffic (post @ tail)"
            using q tail by (simp add: noWindowTraffic_append)
          from trace closing eq
          have "t = [m, chk, CloseRunningInstances
                   (accountsToClose lc (accounts s) (selectedCharacters (accounts s)) (runningCharacters cr))
                   (accountsData (accounts s)), Wait 5000, chk] @ (post @ tail)"
            by (simp add: chk_def)
          with cl quiet show ?thesis by blast
        qed
      qed
    qed
  qed
qed

lemma noWindowTraffic_not_mem:
  "noWindowTraffic es \<Longrightarrow> CloseRunningInstances a b \<notin> set es"
  by (auto simp: noWindowTraffic_def list_all_iff)

text \<open>
  Claim C5. In every run of the handler there is at most one close request, at most one
  wait and at most two conflict checks. When a close request is made and completes, the
  trace is: the first check, the close request, one wait of 5000 ms, one re-check, and
  after that no further check, wait or close request, whatever the re-check answered.
\<close>

theorem close_then_one_wait_and_one_recheck:
  fixes lc s be
  defines "t \<equiv> launchBtn_onclick lc s be"
  shows "length (filter isClose t) \<le> 1 \<and> length (filter isWait t) \<le> 1 \<and>
         length (filter isCheck t) \<le> 2 \<and>
         (close_resolves be \<longrightarrow> CloseRunningInstances toClose ad \<in> set t \<longrightarrow>
            (\<exists>post. t = [ShowMessage CheckingForInstances Info,
                         CheckAndFocusWindow (accountsData (accounts s)) (selectedAccounts (accounts s)),
                         CloseRunningInstances toClose ad,
                         Wait 5000,
                         CheckAndFocusWindow (accountsData (accounts s)) (selectedAccounts (accounts s))]
                        @ post
                    \<and> noWindowTraffic post))"
proof -
  let ?m = "ShowMessage CheckingForInstances Info"
  let ?chk = "CheckAndFocusWindow (accountsData (accounts s)) (selectedAccounts (accounts s))"
  from launchBtn_onclick_shapes [of lc s be]
  consider (quiet) "noWindowTraffic t"
    | (checked) rest where "t = ?m # ?chk # rest" "noWindowTraffic rest"
    | (rejected) tc where "\<not> close_resolves be"
        "t = [?m, ?chk, CloseRunningInstances tc (accountsData (accounts s)),
              ShowMessage ErrorManagingWindows Error]"
    | (closed) tc post where "close_resolves be"
        "t = [?m, ?chk, CloseRunningInstances tc (accountsData (accounts s)), Wait 5000, ?chk] @ post"
        "noWindowTraffic post"
    unfolding t_def by blast
  then show ?thesis
  proof cases
    case quiet
    then show ?thesis
      using noWindowTraffic_counts [of t] noWindowTraffic_not_mem [of t toClose ad] by simp
  next
    case checked
    then show ?thesis
      using noWindowTraffic_counts [of rest] noWindowTraffic_not_mem [of rest toClose ad] by simp
  next
    case rejected
    then show ?thesis by simp
  next
    case closed
    then show ?thesis
      using noWindowTraffic_counts [of post] noWindowTraffic_not_mem [of post toClose ad] by auto
  qed
qed

theorem close_then_one_wait_and_one_recheck_witness:
  "launchBtn_onclick asciiLower
      \<lparr>gameFolder = ''C:/AO'', dllFolder = ''C:/dll'',
        accounts =
          [\<lparr>acc_name = ''A'', password = ''p'', characters =
             [\<lparr>char_name = ''Alice'', char_id = IdNumber (Num 1), selected = True, comment = None\<rparr>,
              \<lparr>char_name = ''Bob'', char_id = IdNumber (Num 2), selected = False, comment = None\<rparr>]\<rparr>],
        autoCycle = True\<rparr>
      \<lparr>check_response = Responded True
          \<lparr>status = ConflictsFound, conflictedAccounts = [''A''], conflicts = [(''A'', ''busy'')],
            runningCharacters = [''BOB''], check_message = []\<rparr>,
        close_resolves = True,
        recheck_response = Responded True
          \<lparr>status = NoConflicts, conflictedAccounts = [], conflicts = [],
            runningCharacters = [], check_message = []\<rparr>,
        launch_response = Rejected\<rparr>
   = [ShowMessage CheckingForInstances Info,
      CheckAndFocusWindow [(''A'', [(''Alice'', IdNumber (Num 1)), (''Bob'', IdNumber (Num 2))])] [''A''],
      CloseRunningInstances [''A''] [(''A'', [(''Alice'', IdNumber (Num 1)), (''Bob'', IdNumber (Num 2))])],
      Wait 5000,
      CheckAndFocusWindow [(''A'', [(''Alice'', IdNumber (Num 1)), (''Bob'', IdNumber (Num 2))])] [''A''],
      ShowMessage NoConflictsLaunching Info,
      Launch ''C:/AO'' ''C:/dll'' [\<lparr>accountName = ''A'', accountPassword = ''p'', characterId = IdNumber (Num 1)\<rparr>],
      ShowMessage FailedToConnect Error]
   \<and> noWindowTraffic
        [ShowMessage NoConflictsLaunching Info,
         Launch ''C:/AO'' ''C:/dll'' [\<lparr>accountName = ''A'', accountPassword = ''p'', characterId = IdNumber (Num 1)\<rparr>],
         ShowMessage FailedToConnect Error]"
proof -
  let ?s = "\<lparr>gameFolder = ''C:/AO'', dllFolder = ''C:/dll'',
        accounts =
          [\<lparr>acc_name = ''A'', password = ''p'', characters =
             [\<lparr>char_name = ''Alice'', char_id = IdNumber (Num 1), selected = True, comment = None\<rparr>,
              \<lparr>char_name = ''Bob'', char_id = IdNumber (Num 2), selected = False, comment = None\<rparr>]\<rparr>],
        autoCycle = True\<rparr>"
  let ?be = "\<lparr>check_response = Responded True
          \<lparr>status = ConflictsFound, conflictedAccounts = [''A''], conflicts = [(''A'', ''busy'')],
            runningCharacters = [''BOB''], check_message = []\<rparr>,
        close_resolves = True,
        recheck_response = Responded True
          \<lparr>status = NoConflicts, conflictedAccounts = [], conflicts = [],
            runningCharacters = [], check_message = []\<rparr>,
        launch_response = Rejected\<rparr>"
  have run: "launchBtn_onclick asciiLower ?s ?be
   = [ShowMessage CheckingForInstances Info,
      CheckAndFocusWindow [(''A'', [(''Alice'', IdNumber (Num 1)), (''Bob'', IdNumber (Num 2))])] [''A''],
      CloseRunningInstances [''A''] [(''A'', [(''Alice'', IdNumber (Num 1)), (''Bob'', IdNumber (Num 2))])],
      Wait 5000,
      CheckAndFocusWindow [(''A'', [(''Alice'', IdNumber (Num 1)), (''Bob'', IdNumber (Num 2))])] [''A''],
      ShowMessage NoConflictsLaunching Info,
      Launch ''C:/AO'' ''C:/dll'' [\<lparr>accountName = ''A'', accountPassword = ''p'', characterId = IdNumber (Num 1)\<rparr>],
      ShowMessage FailedToConnect Error]"
    by code_simp
  have h1: "close_resolves ?be" by simp
  have h2: "CloseRunningInstances [''A''] [(''A'', [(''Alice'', IdNumber (Num 1)), (''Bob'', IdNumber (Num 2))])]
            \<in> set (launchBtn_onclick asciiLower ?s ?be)"
    unfolding run by simp
  from close_then_one_wait_and_one_recheck [of asciiLower ?s ?be "[''A'']"
      "[(''A'', [(''Alice'', IdNumber (Num 1)), (''Bob'', IdNumber (Num 2))])]"] h1 h2
  obtain post where "launchBtn_onclick asciiLower ?s ?be
      = [ShowMessage CheckingForInstances Info,
         CheckAndFocusWindow (accountsData (accounts ?s)) (selectedAccounts (accounts ?s)),
         CloseRunningInstances [''A''] [(''A'', [(''Alice'', IdNumber (Num 1)), (''Bob'', IdNumber (Num 2))])],
         Wait 5000,
         CheckAndFocusWindow (accountsData (accounts ?s)) (selectedAccounts (accounts ?s))] @ post"
      and "noWindowTraffic post" by blast
  then show ?thesis unfolding run by simp
qed

section \<open>Auto-cycle: the accounts to close\<close>

lemma findAccount_lc: "lc r = lc r' \<Longrightarrow> findAccount lc accs r = findAccount lc accs r'"
  by (simp add: findAccount_def hasCharacterNamed_def [abs_def])

lemma fold_running_lookup:
  "fold (\<lambda>rn m. case findAccount lc accs rn of
                   None \<Rightarrow> m
                 | Some a \<Rightarrow> m(lc rn \<mapsto> acc_name a)) rs m (lc r)
   = (if \<exists>r'\<in>set rs. lc r' = lc r
      then (case findAccount lc accs r of None \<Rightarrow> m (lc r) | Some a \<Rightarrow> Some (acc_name a))
      else m (lc r))"
proof (induction rs arbitrary: m)
  case Nil
  show ?case by simp
next
  case (Cons x xs)
  show ?case
  proof (cases "lc x = lc r")
    case True
    then have "findAccount lc accs x = findAccount lc accs r" by (rule findAccount_lc)
    with True show ?thesis by (simp add: Cons.IH split: option.splits)
  next
    case False
    then show ?thesis by (simp add: Cons.IH split: option.splits)
  qed
qed

lemma runningCharToAccount_lookup:
  "r \<in> set running \<Longrightarrow>
   runningCharToAccount lc accs running (lc r) = map_option acc_name (findAccount lc accs r)"
  unfolding runningCharToAccount_def fold_running_lookup
  by (auto split: option.splits)

lemma set_Set_add [simp]: "set (Set_add x s) = insert x (set s)"
  by (auto simp: Set_add_def)

lemma set_fold_Set_add:
  "set (fold (\<lambda>x acc. if P x then Set_add (g x) acc else acc) xs acc)
   = set acc \<union> g ` {x \<in> set xs. P x}"
  by (induction xs arbitrary: acc) auto

text \<open>The binding of an account name after the loop over the selected characters.\<close>

lemma fold_bindings_absent:
  "\<forall>e\<in>set es. key e \<noteq> k \<Longrightarrow>
   fold (\<lambda>e m. case res e of None \<Rightarrow> m | Some n \<Rightarrow> m(key e \<mapsto> n)) es m k = m k"
  by (induction es arbitrary: m) (auto split: option.splits)

lemma fold_bindings_single:
  "filter (\<lambda>e. key e = k) es = [e] \<Longrightarrow> res e = Some n \<Longrightarrow>
   fold (\<lambda>e m. case res e of None \<Rightarrow> m | Some n \<Rightarrow> m(key e \<mapsto> n)) es m k = Some n"
proof (induction es arbitrary: m)
  case Nil
  then show ?case by simp
next
  case (Cons x xs)
  show ?case
  proof (cases "key x = k")
    case True
    with Cons.prems have x: "x = e" and rest: "filter (\<lambda>e. key e = k) xs = []" by simp_all
    from rest have "\<forall>e\<in>set xs. key e \<noteq> k" by (simp add: filter_empty_conv)
    then show ?thesis using Cons.prems(2) x True by (simp add: fold_bindings_absent)
  next
    case False
    with Cons.prems have "filter (\<lambda>e. key e = k) xs = [e]" by simp
    then show ?thesis using Cons.prems(2) False by (simp add: Cons.IH)
  qed
qed

lemma find_distinct_key:
  "distinct (map f xs) \<Longrightarrow> x \<in> set xs \<Longrightarrow> find (\<lambda>y. f y = f x) xs = Some x"
  by (induction xs) (auto simp: image_iff)

lemma find_strictEq:
  assumes "distinct (map char_id cs)" and "list_all (\<lambda>c. char_id c \<noteq> IdNumber NaN) cs" and "c \<in> set cs"
  shows "find (\<lambda>x. strictEq (char_id x) (char_id c)) cs = Some c"
proof -
  have "find (\<lambda>x. strictEq (char_id x) (char_id c)) cs = find (\<lambda>x. char_id x = char_id c) cs"
    using assms(2) by (intro find_cong) (auto simp: strictEq_def list_all_iff)
  then show ?thesis using find_distinct_key [OF assms(1,3)] by simp
qed

lemma findAccount_owning: "findAccount lc accs rn = owningAccount lc accs rn"
  by (induction accs) (auto simp: findAccount_def hasCharacterNamed_def list_ex_iff image_iff)

lemma selectedCharacters_Cons:
  "selectedCharacters (a # accs)
   = map (\<lambda>ch. \<lparr>accountName = acc_name a, accountPassword = password a, characterId = char_id ch\<rparr>)
         (filter selected (characters a)) @ selectedCharacters accs"
  by (simp add: selectedCharacters_def)

lemma accountName_selectedCharacters:
  "e \<in> set (selectedCharacters accs) \<Longrightarrow> accountName e \<in> acc_name ` set accs"
  by (auto simp: selectedCharacters_def)

lemma filter_selectedCharacters:
  "distinct (map acc_name accs) \<Longrightarrow> a \<in> set accs \<Longrightarrow>
   filter (\<lambda>e. accountName e = acc_name a) (selectedCharacters accs)
   = map (\<lambda>ch. \<lparr>accountName = acc_name a, accountPassword = password a, characterId = char_id ch\<rparr>)
         (filter selected (characters a))"
proof (induction accs)
  case Nil
  then show ?case by simp
next
  case (Cons x xs)
  show ?case
  proof (cases "a = x")
    case True
    with Cons.prems(1) have "acc_name a \<notin> acc_name ` set xs" by simp
    then have "filter (\<lambda>e. accountName e = acc_name a) (selectedCharacters xs) = []"
      unfolding filter_empty_conv by (metis accountName_selectedCharacters)
    with True show ?thesis by (simp add: selectedCharacters_Cons)
  next
    case False
    with Cons.prems have a: "a \<in> set xs" and ne: "acc_name x \<noteq> acc_name a" by auto
    from ne have "filter (\<lambda>e. accountName e = acc_name a)
        (map (\<lambda>ch. \<lparr>accountName = acc_name x, accountPassword = password x, characterId = char_id ch\<rparr>)
             (filter selected (characters x))) = []"
      by (simp add: filter_empty_conv)
    with Cons.IH a Cons.prems(1) show ?thesis by (simp add: selectedCharacters_Cons)
  qed
qed

lemma selectedCharNamesByAccount_wf:
  assumes wf: "wellFormedRoster accs" and a: "a \<in> set accs"
  shows "selectedCharNamesByAccount accs (selectedCharacters accs) (acc_name a)
         = (case filter selected (characters a) of [] \<Rightarrow> None | c # cs \<Rightarrow> Some (char_name c))"
proof -
  let ?res = "\<lambda>char. case find (\<lambda>acc. acc_name acc = accountName char) accs of
                 None \<Rightarrow> None
               | Some account \<Rightarrow>
                  (case find (\<lambda>c. strictEq (char_id c) (characterId char)) (characters account) of
                     None \<Rightarrow> None | Some character \<Rightarrow> Some (char_name character))"
  let ?mk = "\<lambda>ch. \<lparr>accountName = acc_name a, accountPassword = password a, characterId = char_id ch\<rparr>"
  have fold_eq: "selectedCharNamesByAccount accs sel
        = fold (\<lambda>e m. case ?res e of None \<Rightarrow> m | Some n \<Rightarrow> m(accountName e \<mapsto> n)) sel Map.empty" for sel
    unfolding selectedCharNamesByAccount_def
    by (rule arg_cong [where f = "\<lambda>f. fold f sel Map.empty"]) (auto split: option.splits)
  from wf have dn: "distinct (map acc_name accs)" by (simp add: wellFormedRoster_def)
  from wf a have wa: "wellFormedAccount a" by (simp add: wellFormedRoster_def list_all_iff)
  have entries: "filter (\<lambda>e. accountName e = acc_name a) (selectedCharacters accs)
                 = map ?mk (filter selected (characters a))"
    by (rule filter_selectedCharacters [OF dn a])
  show ?thesis
  proof (cases "filter selected (characters a)")
    case Nil
    with entries have "\<forall>e\<in>set (selectedCharacters accs). accountName e \<noteq> acc_name a"
      by (simp add: filter_empty_conv)
    then show ?thesis unfolding fold_eq by (simp add: fold_bindings_absent Nil)
  next
    case (Cons c cs)
    from wa have "length (filter selected (characters a)) \<le> 1"
      by (simp add: wellFormedAccount_def atMostOneSelected_def)
    with Cons have cs: "cs = []" by simp
    have "c \<in> set (filter selected (characters a))" by (simp add: Cons)
    then have c: "c \<in> set (characters a)" by simp
    have "find (\<lambda>acc. acc_name acc = acc_name a) accs = Some a"
      by (rule find_distinct_key [OF dn a])
    moreover have "find (\<lambda>x. strictEq (char_id x) (char_id c)) (characters a) = Some c"
      using wa c by (intro find_strictEq) (simp_all add: wellFormedAccount_def)
    ultimately have res: "?res (?mk c) = Some (char_name c)" by simp
    have "filter (\<lambda>e. accountName e = acc_name a) (selectedCharacters accs) = [?mk c]"
      using entries Cons cs by simp
    then show ?thesis unfolding fold_eq using res
      by (simp add: fold_bindings_single [where res = ?res] Cons)
  qed
qed

lemma findAccount_mem: "findAccount lc accs rn = Some a \<Longrightarrow> a \<in> set accs"
  by (auto simp: findAccount_def find_Some_iff)

lemma accountsToClose_set:
  "set (accountsToClose lc accs sel running)
   = {acc_name a | rn a. rn \<in> set running \<and> findAccount lc accs rn = Some a \<and> acc_name a \<noteq> [] \<and>
        (case selectedCharNamesByAccount accs sel (acc_name a) of
           None \<Rightarrow> True
         | Some sn \<Rightarrow> sn = [] \<or> lc sn \<noteq> lc rn)}"
proof -
  let ?P = "\<lambda>rn. case findAccount lc accs rn of
                   None \<Rightarrow> False
                 | Some a \<Rightarrow> acc_name a \<noteq> [] \<and>
                     (case selectedCharNamesByAccount accs sel (acc_name a) of
                        None \<Rightarrow> True
                      | Some sn \<Rightarrow> sn = [] \<or> lc sn \<noteq> lc rn)"
  let ?g = "\<lambda>rn. acc_name (the (findAccount lc accs rn))"
  have "accountsToClose lc accs sel running
        = fold (\<lambda>rn acc. if ?P rn then Set_add (?g rn) acc else acc) running []"
    unfolding accountsToClose_def
    by (rule fold_cong) (auto simp: runningCharToAccount_lookup fun_eq_iff split: option.splits)
  then have "set (accountsToClose lc accs sel running) = ?g ` {rn \<in> set running. ?P rn}"
    by (simp add: set_fold_Set_add)
  also have "\<dots> = {acc_name a | rn a. rn \<in> set running \<and> findAccount lc accs rn = Some a \<and>
        acc_name a \<noteq> [] \<and>
        (case selectedCharNamesByAccount accs sel (acc_name a) of
           None \<Rightarrow> True
         | Some sn \<Rightarrow> sn = [] \<or> lc sn \<noteq> lc rn)}"
    by (auto simp: image_iff split: option.splits) force+
  finally show ?thesis .
qed

lemma set_closeBySpec:
  "set (closeBySpec lc accs running)
   = {acc_name a | rn a. rn \<in> set running \<and> findAccount lc accs rn = Some a \<and>
        (filter selected (characters a) = [] \<or>
         list_ex (\<lambda>c. selected c \<and> lc (char_name c) \<noteq> lc rn) (characters a))}"
  unfolding closeBySpec_def findAccount_owning [symmetric]
  by (auto split: option.splits if_splits) force+

lemma close_condition_wf:
  assumes wf: "wellFormedRoster accs" and a: "a \<in> set accs"
  shows "(acc_name a \<noteq> [] \<and>
          (case selectedCharNamesByAccount accs (selectedCharacters accs) (acc_name a) of
             None \<Rightarrow> True
           | Some sn \<Rightarrow> sn = [] \<or> lc sn \<noteq> lc rn))
         \<longleftrightarrow> (filter selected (characters a) = [] \<or>
              list_ex (\<lambda>c. selected c \<and> lc (char_name c) \<noteq> lc rn) (characters a))"
proof -
  from wf a have wa: "wellFormedAccount a" by (simp add: wellFormedRoster_def list_all_iff)
  then have name: "acc_name a \<noteq> []" by (simp add: wellFormedAccount_def)
  have ex: "list_ex (\<lambda>c. selected c \<and> lc (char_name c) \<noteq> lc rn) (characters a)
            \<longleftrightarrow> (\<exists>c\<in>set (filter selected (characters a)). lc (char_name c) \<noteq> lc rn)"
    by (auto simp: list_ex_iff)
  show ?thesis
  proof (cases "filter selected (characters a)")
    case Nil
    then show ?thesis by (simp add: selectedCharNamesByAccount_wf [OF wf a] name)
  next
    case (Cons c cs)
    from wa have "length (filter selected (characters a)) \<le> 1"
      by (simp add: wellFormedAccount_def atMostOneSelected_def)
    with Cons have cs: "cs = []" by simp
    have "c \<in> set (filter selected (characters a))" by (simp add: Cons)
    then have "c \<in> set (characters a)" by simp
    with wa have "char_name c \<noteq> []" by (simp add: wellFormedAccount_def list_all_iff)
    then show ?thesis
      unfolding ex by (simp add: selectedCharNamesByAccount_wf [OF wf a] name Cons cs)
  qed
qed

lemma accountsToClose_wf:
  assumes "wellFormedRoster accs"
  shows "set (accountsToClose lc accs (selectedCharacters accs) running)
         = set (closeBySpec lc accs running)"
  unfolding accountsToClose_set set_closeBySpec
  using close_condition_wf [OF assms] findAccount_mem by blast

lemma failedToClose_nonempty:
  "failedToClose lc accs toClose stillRunning \<noteq> []
   \<longleftrightarrow> (\<exists>rn\<in>set stillRunning. \<exists>a. findAccount lc accs rn = Some a \<and> acc_name a \<in> set toClose)"
  by (auto simp: failedToClose_def filter_empty_conv split: option.splits)

lemma failed_close_aborts:
  assumes "selectedCharacters (accounts s) \<noteq> []" and "gameFolder s \<noteq> []" and "dllFolder s \<noteq> []"
    and "autoCycle s"
    and "check_response be = Responded True cr"
    and "close_resolves be"
    and "recheck_response be = Responded True new"
    and "\<exists>rn\<in>set (runningCharacters new). \<exists>a. findAccount lc (accounts s) rn = Some a \<and>
           acc_name a \<in> set (accountsToClose lc (accounts s) (selectedCharacters (accounts s))
                               (runningCharacters cr))"
  shows "launchBtn_onclick lc s be
         = [ShowMessage CheckingForInstances Info,
            CheckAndFocusWindow (accountsData (accounts s)) (selectedAccounts (accounts s)),
            CloseRunningInstances
              (accountsToClose lc (accounts s) (selectedCharacters (accounts s)) (runningCharacters cr))
              (accountsData (accounts s)),
            Wait 5000,
            CheckAndFocusWindow (accountsData (accounts s)) (selectedAccounts (accounts s)),
            ShowMessage FailedToCloseWindows Error]"
proof -
  let ?toClose = "accountsToClose lc (accounts s) (selectedCharacters (accounts s)) (runningCharacters cr)"
  from assms(8) have failed: "failedToClose lc (accounts s) ?toClose (runningCharacters new) \<noteq> []"
    by (simp only: failedToClose_nonempty)
  from assms(8) have nonempty: "?toClose \<noteq> []" by auto
  have "autoCycleStage lc (accounts s) cr be
        = ([CloseRunningInstances ?toClose (accountsData (accounts s)), Wait 5000,
            CheckAndFocusWindow (accountsData (accounts s)) (selectedAccounts (accounts s)),
            ShowMessage FailedToCloseWindows Error], None)"
    using failed nonempty assms(6,7) by (simp add: autoCycleStage_def Let_def)
  then show ?thesis
    using assms(1-5) by (simp add: launchBtn_onclick_def Let_def windowManagement_def)
qed

text \<open>
  Claim C4, as stated, fails: the handler finds the name of an account's selected character
  through the account name and the character id, first match, and takes an empty account
  name for a missing one. Four rosters, with the list the handler computes and the list of
  the claim.

  \<^item> The add-character dialog accepts an id that the account already uses. Alice and Bob are
    added with id 5 and Bob is selected; Alice is running. The lookup by id yields Alice, and
    the account is not put in \<open>accountsToClose\<close>, while by the claim it belongs there.
  \<^item> The add-character dialog accepts a blank answer for the id, which \<^verbatim>\<open>isNaN\<close> reads as 0
    and \<^verbatim>\<open>parseInt\<close> as \<^verbatim>\<open>NaN\<close>. Zed is added so and selected; Zed is running. The lookup
    \<^verbatim>\<open>c.id === char.characterId\<close> finds nobody, and the account is closed although its selected
    character is the running one.
  \<^item> The add-account dialog accepts a name that is in use. A second account \<open>A\<close> is added, Bob
    is added to it and selected; Bob is running. The lookup by account name yields the first
    account \<open>A\<close>, where no character has Bob's id, and \<open>A\<close> is closed although the selected
    character of the account that owns Bob is the running one.
  \<^item> An account whose name is the empty string, as a loaded document can carry it, has Alice
    running and nobody selected. The handler skips it; by the claim it is to be closed.
\<close>

theorem accounts_to_close_counterexample:
  "addChar_onclick codeUnitOrder isNaN_string parseInt10 0 (Some ''Alice'') (Some ''5'')
     [\<lparr>acc_name = ''A'', password = ''p'', characters = []\<rparr>]
   = Inr ([\<lparr>acc_name = ''A'', password = ''p'', characters =
             [\<lparr>char_name = ''Alice'', char_id = IdNumber (Num 5), selected = False, comment = Some []\<rparr>]\<rparr>], [])
   \<and> addChar_onclick codeUnitOrder isNaN_string parseInt10 0 (Some ''Bob'') (Some ''5'')
     [\<lparr>acc_name = ''A'', password = ''p'', characters =
        [\<lparr>char_name = ''Alice'', char_id = IdNumber (Num 5), selected = False, comment = Some []\<rparr>]\<rparr>]
   = Inr ([\<lparr>acc_name = ''A'', password = ''p'', characters =
             [\<lparr>char_name = ''Alice'', char_id = IdNumber (Num 5), selected = False, comment = Some []\<rparr>,
              \<lparr>char_name = ''Bob'', char_id = IdNumber (Num 5), selected = False, comment = Some []\<rparr>]\<rparr>], [])
   \<and> checkbox_onclick codeUnitOrder False 0 1
     [\<lparr>acc_name = ''A'', password = ''p'', characters =
        [\<lparr>char_name = ''Alice'', char_id = IdNumber (Num 5), selected = False, comment = Some []\<rparr>,
         \<lparr>char_name = ''Bob'', char_id = IdNumber (Num 5), selected = False, comment = Some []\<rparr>]\<rparr>]
   = Inr [\<lparr>acc_name = ''A'', password = ''p'', characters =
            [\<lparr>char_name = ''Alice'', char_id = IdNumber (Num 5), selected = False, comment = Some []\<rparr>,
             \<lparr>char_name = ''Bob'', char_id = IdNumber (Num 5), selected = True, comment = Some []\<rparr>]\<rparr>]
   \<and> accountsToClose asciiLower
       [\<lparr>acc_name = ''A'', password = ''p'', characters =
          [\<lparr>char_name = ''Alice'', char_id = IdNumber (Num 5), selected = False, comment = Some []\<rparr>,
           \<lparr>char_name = ''Bob'', char_id = IdNumber (Num 5), selected = True, comment = Some []\<rparr>]\<rparr>]
       (selectedCharacters
          [\<lparr>acc_name = ''A'', password = ''p'', characters =
             [\<lparr>char_name = ''Alice'', char_id = IdNumber (Num 5), selected = False, comment = Some []\<rparr>,
              \<lparr>char_name = ''Bob'', char_id = IdNumber (Num 5), selected = True, comment = Some []\<rparr>]\<rparr>])
       [''Alice'']
     = []
   \<and> closeBySpec asciiLower
       [\<lparr>acc_name = ''A'', password = ''p'', characters =
          [\<lparr>char_name = ''Alice'', char_id = IdNumber (Num 5), selected = False, comment = Some []\<rparr>,
           \<lparr>char_name = ''Bob'', char_id = IdNumber (Num 5), selected = True, comment = Some []\<rparr>]\<rparr>]
       [''Alice'']
     = [''A'']
   \<and> addChar_onclick codeUnitOrder isNaN_string parseInt10 0 (Some ''Zed'') (Some '' '')
     [\<lparr>acc_name = ''A'', password = ''p'', characters = []\<rparr>]
   = Inr ([\<lparr>acc_name = ''A'', password = ''p'', characters =
             [\<lparr>char_name = ''Zed'', char_id = IdNumber NaN, selected = False, comment = Some []\<rparr>]\<rparr>], [])
   \<and> checkbox_onclick codeUnitOrder False 0 0
     [\<lparr>acc_name = ''A'', password = ''p'', characters =
        [\<lparr>char_name = ''Zed'', char_id = IdNumber NaN, selected = False, comment = Some []\<rparr>]\<rparr>]
   = Inr [\<lparr>acc_name = ''A'', password = ''p'', characters =
            [\<lparr>char_name = ''Zed'', char_id = IdNumber NaN, selected = True, comment = Some []\<rparr>]\<rparr>]
   \<and> accountsToClose asciiLower
       [\<lparr>acc_name = ''A'', password = ''p'', characters =
          [\<lparr>char_name = ''Zed'', char_id = IdNumber NaN, selected = True, comment = Some []\<rparr>]\<rparr>]
       (selectedCharacters
          [\<lparr>acc_name = ''A'', password = ''p'', characters =
             [\<lparr>char_name = ''Zed'', char_id = IdNumber NaN, selected = True, comment = Some []\<rparr>]\<rparr>])
       [''Zed'']
     = [''A'']
   \<and> closeBySpec asciiLower
       [\<lparr>acc_name = ''A'', password = ''p'', characters =
          [\<lparr>char_name = ''Zed'', char_id = IdNumber NaN, selected = True, comment = Some []\<rparr>]\<rparr>]
       [''Zed'']
     = []
   \<and> addAccountBtn_onclick codeUnitOrder (Some ''A'') (Some ''q'')
     [\<lparr>acc_name = ''A'', password = ''p'', characters =
        [\<lparr>char_name = ''Alice'', char_id = IdNumber (Num 1), selected = False, comment = Some []\<rparr>]\<rparr>]
   = [\<lparr>acc_name = ''A'', password = ''p'', characters =
        [\<lparr>char_name = ''Alice'', char_id = IdNumber (Num 1), selected = False, comment = Some []\<rparr>]\<rparr>,
      \<lparr>acc_name = ''A'', password = ''q'', characters = []\<rparr>]
   \<and> addChar_onclick codeUnitOrder isNaN_string parseInt10 1 (Some ''Bob'') (Some ''2'')
     [\<lparr>acc_name = ''A'', password = ''p'', characters =
        [\<lparr>char_name = ''Alice'', char_id = IdNumber (Num 1), selected = False, comment = Some []\<rparr>]\<rparr>,
      \<lparr>acc_name = ''A'', password = ''q'', characters = []\<rparr>]
   = Inr ([\<lparr>acc_name = ''A'', password = ''p'', characters =
             [\<lparr>char_name = ''Alice'', char_id = IdNumber (Num 1), selected = False, comment = Some []\<rparr>]\<rparr>,
           \<lparr>acc_name = ''A'', password = ''q'', characters =
             [\<lparr>char_name = ''Bob'', char_id = IdNumber (Num 2), selected = False, comment = Some []\<rparr>]\<rparr>], [])
   \<and> checkbox_onclick codeUnitOrder False 1 0
     [\<lparr>acc_name = ''A'', password = ''p'', characters =
        [\<lparr>char_name = ''Alice'', char_id = IdNumber (Num 1), selected = False, comment = Some []\<rparr>]\<rparr>,
      \<lparr>acc_name = ''A'', password = ''q'', characters =
        [\<lparr>char_name = ''Bob'', char_id = IdNumber (Num 2), selected = False, comment = Some []\<rparr>]\<rparr>]
   = Inr [\<lparr>acc_name = ''A'', password = ''p'', characters =
            [\<lparr>char_name = ''Alice'', char_id = IdNumber (Num 1), selected = False, comment = Some []\<rparr>]\<rparr>,
          \<lparr>acc_name = ''A'', password = ''q'', characters =
            [\<lparr>char_name = ''Bob'', char_id = IdNumber (Num 2), selected = True, comment = Some []\<rparr>]\<rparr>]
   \<and> accountsToClose asciiLower
       [\<lparr>acc_name = ''A'', password = ''p'', characters =
          [\<lparr>char_name = ''Alice'', char_id = IdNumber (Num 1), selected = False, comment = Some []\<rparr>]\<rparr>,
        \<lparr>acc_name = ''A'', password = ''q'', characters =
          [\<lparr>char_name = ''Bob'', char_id = IdNumber (Num 2), selected = True, comment = Some []\<rparr>]\<rparr>]
       (selectedCharacters
          [\<lparr>acc_name = ''A'', password = ''p'', characters =
             [\<lparr>char_name = ''Alice'', char_id = IdNumber (Num 1), selected = False, comment = Some []\<rparr>]\<rparr>,
           \<lparr>acc_name = ''A'', password = ''q'', characters =
             [\<lparr>char_name = ''Bob'', char_id = IdNumber (Num 2), selected = True, comment = Some []\<rparr>]\<rparr>])
       [''Bob'']
     = [''A'']
   \<and> closeBySpec asciiLower
       [\<lparr>acc_name = ''A'', password = ''p'', characters =
          [\<lparr>char_name = ''Alice'', char_id = IdNumber (Num 1), selected = False, comment = Some []\<rparr>]\<rparr>,
        \<lparr>acc_name = ''A'', password = ''q'', characters =
          [\<lparr>char_name = ''Bob'', char_id = IdNumber (Num 2), selected = True, comment = Some []\<rparr>]\<rparr>]
       [''Bob'']
     = []
   \<and> accountsToClose asciiLower
       [\<lparr>acc_name = '''', password = ''p'', characters =
          [\<lparr>char_name = ''Alice'', char_id = IdNumber (Num 1), selected = False, comment = None\<rparr>]\<rparr>]
       (selectedCharacters
          [\<lparr>acc_name = '''', password = ''p'', characters =
             [\<lparr>char_name = ''Alice'', char_id = IdNumber (Num 1), selected = False, comment = None\<rparr>]\<rparr>])
       [''Alice'']
     = []
   \<and> closeBySpec asciiLower
       [\<lparr>acc_name = '''', password = ''p'', characters =
          [\<lparr>char_name = ''Alice'', char_id = IdNumber (Num 1), selected = False, comment = None\<rparr>]\<rparr>]
       [''Alice'']
     = ['''']"
  by code_simp

text \<open>
  Claim C4, amended. Take a roster of the data model (in each account the character names
  not empty and at most one character selected) whose account names are distinct and not
  empty and in which the character ids of an account are distinct and none is \<^verbatim>\<open>NaN\<close>. Then
  \<open>accountsToClose\<close> holds exactly the accounts that own a running name (matched without
  regard to case, the first account that has a character of that name; names found nowhere
  are ignored) and that have no selected character or a selected character whose name
  differs, without regard to case, from the running one. And for every roster: when, after a
  close request that completed and a re-check that answered, a running name is still owned
  by an account of \<open>accountsToClose\<close>, the handler stops with the could-not-close message
  and makes no launch request.
\<close>

theorem accounts_to_close_as_specified:
  "(wellFormedRoster (accounts s) \<longrightarrow>
      set (accountsToClose lc (accounts s) (selectedCharacters (accounts s)) running)
      = set (closeBySpec lc (accounts s) running))
   \<and> (selectedCharacters (accounts s) \<noteq> [] \<and> gameFolder s \<noteq> [] \<and> dllFolder s \<noteq> [] \<and>
      autoCycle s \<and> check_response be = Responded True cr \<and> close_resolves be \<and>
      recheck_response be = Responded True new \<and>
      (\<exists>rn\<in>set (runningCharacters new). \<exists>a. owningAccount lc (accounts s) rn = Some a \<and>
           acc_name a \<in> set (accountsToClose lc (accounts s) (selectedCharacters (accounts s))
                               (runningCharacters cr)))
      \<longrightarrow> launchBtn_onclick lc s be
            = [ShowMessage CheckingForInstances Info,
               CheckAndFocusWindow (accountsData (accounts s)) (selectedAccounts (accounts s)),
               CloseRunningInstances
                 (accountsToClose lc (accounts s) (selectedCharacters (accounts s)) (runningCharacters cr))
                 (accountsData (accounts s)),
               Wait 5000,
               CheckAndFocusWindow (accountsData (accounts s)) (selectedAccounts (accounts s)),
               ShowMessage FailedToCloseWindows Error]
          \<and> launchesOf (launchBtn_onclick lc s be) = [])"
proof (intro conjI impI)
  assume "wellFormedRoster (accounts s)"
  then show "set (accountsToClose lc (accounts s) (selectedCharacters (accounts s)) running)
      = set (closeBySpec lc (accounts s) running)"
    by (rule accountsToClose_wf)
next
  assume "selectedCharacters (accounts s) \<noteq> [] \<and> gameFolder s \<noteq> [] \<and> dllFolder s \<noteq> [] \<and>
      autoCycle s \<and> check_response be = Responded True cr \<and> close_resolves be \<and>
      recheck_response be = Responded True new \<and>
      (\<exists>rn\<in>set (runningCharacters new). \<exists>a. owningAccount lc (accounts s) rn = Some a \<and>
           acc_name a \<in> set (accountsToClose lc (accounts s) (selectedCharacters (accounts s))
                               (runningCharacters cr)))"
  then have h: "selectedCharacters (accounts s) \<noteq> [] \<and> gameFolder s \<noteq> [] \<and> dllFolder s \<noteq> [] \<and>
      autoCycle s \<and> check_response be = Responded True cr \<and> close_resolves be \<and>
      recheck_response be = Responded True new \<and>
      (\<exists>rn\<in>set (runningCharacters new). \<exists>a. findAccount lc (accounts s) rn = Some a \<and>
           acc_name a \<in> set (accountsToClose lc (accounts s) (selectedCharacters (accounts s))
                               (runningCharacters cr)))"
    unfolding findAccount_owning .
  then have trace: "launchBtn_onclick lc s be
            = [ShowMessage CheckingForInstances Info,
               CheckAndFocusWindow (accountsData (accounts s)) (selectedAccounts (accounts s)),
               CloseRunningInstances
                 (accountsToClose lc (accounts s) (selectedCharacters (accounts s)) (runningCharacters cr))
                 (accountsData (accounts s)),
               Wait 5000,
               CheckAndFocusWindow (accountsData (accounts s)) (selectedAccounts (accounts s)),
               ShowMessage FailedToCloseWindows Error]"
    by (elim conjE) (rule failed_close_aborts; assumption)
  then show "launchBtn_onclick lc s be
            = [ShowMessage CheckingForInstances Info,
               CheckAndFocusWindow (accountsData (accounts s)) (selectedAccounts (accounts s)),
               CloseRunningInstances
                 (accountsToClose lc (accounts s) (selectedCharacters (accounts s)) (runningCharacters cr))
                 (accountsData (accounts s)),
               Wait 5000,
               CheckAndFocusWindow (accountsData (accounts s)) (selectedAccounts (accounts s)),
               ShowMessage FailedToCloseWindows Error]" .
  from trace show "launchesOf (launchBtn_onclick lc s be) = []" by simp
qed

theorem accounts_to_close_as_specified_witness:
  "wellFormedRoster
     [\<lparr>acc_name = ''A'', password = ''p'', characters =
        [\<lparr>char_name = ''Alice'', char_id = IdNumber (Num 1), selected = True, comment = None\<rparr>,
         \<lparr>char_name = ''Bob'', char_id = IdNumber (Num 2), selected = False, comment = None\<rparr>]\<rparr>,
      \<lparr>acc_name = ''B'', password = ''q'', characters =
        [\<lparr>char_name = ''Carl'', char_id = IdNumber (Num 3), selected = False, comment = None\<rparr>]\<rparr>]
   \<and> set (closeBySpec asciiLower
     [\<lparr>acc_name = ''A'', password = ''p'', characters =
        [\<lparr>char_name = ''Alice'', char_id = IdNumber (Num 1), selected = True, comment = None\<rparr>,
         \<lparr>char_name = ''Bob'', char_id = IdNumber (Num 2), selected = False, comment = None\<rparr>]\<rparr>,
      \<lparr>acc_name = ''B'', password = ''q'', characters =
        [\<lparr>char_name = ''Carl'', char_id = IdNumber (Num 3), selected = False, comment = None\<rparr>]\<rparr>]
     [''BOB'', ''carl'', ''Zed'']) = {''A'', ''B''}
   \<and> set (accountsToClose asciiLower
     [\<lparr>acc_name = ''A'', password = ''p'', characters =
        [\<lparr>char_name = ''Alice'', char_id = IdNumber (Num 1), selected = True, comment = None\<rparr>,
         \<lparr>char_name = ''Bob'', char_id = IdNumber (Num 2), selected = False, comment = None\<rparr>]\<rparr>,
      \<lparr>acc_name = ''B'', password = ''q'', characters =
        [\<lparr>char_name = ''Carl'', char_id = IdNumber (Num 3), selected = False, comment = None\<rparr>]\<rparr>]
     [\<lparr>accountName = ''A'', accountPassword = ''p'', characterId = IdNumber (Num 1)\<rparr>]
     [''BOB'', ''carl'', ''Zed'']) = {''A'', ''B''}
   \<and> launchesOf (launchBtn_onclick asciiLower
      \<lparr>gameFolder = ''C:/AO'', dllFolder = ''C:/dll'',
        accounts =
          [\<lparr>acc_name = ''A'', password = ''p'', characters =
             [\<lparr>char_name = ''Alice'', char_id = IdNumber (Num 1), selected = True, comment = None\<rparr>,
              \<lparr>char_name = ''Bob'', char_id = IdNumber (Num 2), selected = False, comment = None\<rparr>]\<rparr>,
           \<lparr>acc_name = ''B'', password = ''q'', characters =
             [\<lparr>char_name = ''Carl'', char_id = IdNumber (Num 3), selected = False, comment = None\<rparr>]\<rparr>],
        autoCycle = True\<rparr>
      \<lparr>check_response = Responded True
          \<lparr>status = ConflictsFound, conflictedAccounts = [''A''], conflicts = [(''A'', ''busy'')],
            runningCharacters = [''BOB'', ''carl'', ''Zed''], check_message = []\<rparr>,
        close_resolves = True,
        recheck_response = Responded True
          \<lparr>status = NoConflicts, conflictedAccounts = [], conflicts = [],
            runningCharacters = [''carl''], check_message = []\<rparr>,
        launch_response = Rejected\<rparr>) = []"
proof -
  let ?R = "[\<lparr>acc_name = ''A'', password = ''p'', characters =
        [\<lparr>char_name = ''Alice'', char_id = IdNumber (Num 1), selected = True, comment = None\<rparr>,
         \<lparr>char_name = ''Bob'', char_id = IdNumber (Num 2), selected = False, comment = None\<rparr>]\<rparr>,
      \<lparr>acc_name = ''B'', password = ''q'', characters =
        [\<lparr>char_name = ''Carl'', char_id = IdNumber (Num 3), selected = False, comment = None\<rparr>]\<rparr>]"
  let ?s = "\<lparr>gameFolder = ''C:/AO'', dllFolder = ''C:/dll'', accounts = ?R, autoCycle = True\<rparr>"
  let ?cr = "\<lparr>status = ConflictsFound, conflictedAccounts = [''A''], conflicts = [(''A'', ''busy'')],
            runningCharacters = [''BOB'', ''carl'', ''Zed''], check_message = []\<rparr>"
  let ?new = "\<lparr>status = NoConflicts, conflictedAccounts = [], conflicts = [],
            runningCharacters = [''carl''], check_message = []\<rparr>"
  let ?be = "\<lparr>check_response = Responded True ?cr, close_resolves = True,
        recheck_response = Responded True ?new, launch_response = Rejected\<rparr>"
  have wf: "wellFormedRoster (accounts ?s)" by code_simp
  have sel: "selectedCharacters ?R = [\<lparr>accountName = ''A'', accountPassword = ''p'', characterId = IdNumber (Num 1)\<rparr>]"
    by (simp add: selectedCharacters_def)
  have spec: "closeBySpec asciiLower ?R [''BOB'', ''carl'', ''Zed''] = [''A'', ''B'']"
    by code_simp
  have found: "owningAccount asciiLower ?R ''carl'' = Some (?R ! 1)" by code_simp
  have toClose: "accountsToClose asciiLower ?R (selectedCharacters ?R) [''BOB'', ''carl'', ''Zed'']
                 = [''A'', ''B'']"
    by code_simp
  have h: "selectedCharacters (accounts ?s) \<noteq> [] \<and> gameFolder ?s \<noteq> [] \<and> dllFolder ?s \<noteq> [] \<and>
      autoCycle ?s \<and> check_response ?be = Responded True ?cr \<and> close_resolves ?be \<and>
      recheck_response ?be = Responded True ?new \<and>
      (\<exists>rn\<in>set (runningCharacters ?new). \<exists>a. owningAccount asciiLower (accounts ?s) rn = Some a \<and>
           acc_name a \<in> set (accountsToClose asciiLower (accounts ?s) (selectedCharacters (accounts ?s))
                               (runningCharacters ?cr)))"
    using found toClose by (simp add: sel)
  from accounts_to_close_as_specified [of ?s asciiLower "[''BOB'', ''carl'', ''Zed'']" ?be ?cr ?new] wf h
  have "set (accountsToClose asciiLower (accounts ?s) (selectedCharacters (accounts ?s))
               [''BOB'', ''carl'', ''Zed''])
        = set (closeBySpec asciiLower (accounts ?s) [''BOB'', ''carl'', ''Zed''])"
    and "launchesOf (launchBtn_onclick asciiLower ?s ?be) = []"
    by blast+
  then show ?thesis using wf spec by (simp add: sel)
qed

section \<open>The copy request never targets its source\<close>

lemma set_AList_update:
  "p \<in> set (AList.update k v al) \<Longrightarrow> p = (k, v) \<or> p \<in> set al"
  by (induction al) (auto split: if_splits)

lemma lookup_fold_chars:
  assumes "list_all P m" and "\<And>ch. P (kf ch, vf ch)"
  shows "list_all P (fold (\<lambda>ch m'. AList.update (kf ch) (vf ch) m') chars m)"
  using assms(1)
proof (induction chars arbitrary: m)
  case Nil
  then show ?case by simp
next
  case (Cons ch chars)
  have "list_all P (AList.update (kf ch) (vf ch) m)"
    unfolding list_all_iff using set_AList_update [of _ "kf ch" "vf ch" m] Cons.prems assms(2)
    by (auto simp: list_all_iff)
  then show ?case by (simp add: Cons.IH)
qed

lemma lookup_fold_accounts:
  assumes "list_all P m" and "\<And>acc ch. P (kf acc ch, vf acc ch)"
  shows "list_all P (fold (\<lambda>acc m. fold (\<lambda>ch m'. AList.update (kf acc ch) (vf acc ch) m') (chars acc) m)
                        accs m)"
  using assms(1)
proof (induction accs arbitrary: m)
  case Nil
  then show ?case by simp
next
  case (Cons acc accs)
  have "list_all P (fold (\<lambda>ch m'. AList.update (kf acc ch) (vf acc ch) m') (chars acc) m)"
    by (rule lookup_fold_chars [OF Cons.prems]) (rule assms(2))
  then show ?case by (simp add: Cons.IH)
qed

lemma rebuild_excludes_source:
  "sourceCharacterKey (rebuildCharacterLookup str st)
   \<notin> set (selectedTargets (rebuildCharacterLookup str st))"
  by (simp add: rebuildCharacterLookup_def Let_def)

lemma prefsInvariant_rebuild: "prefsInvariant str (rebuildCharacterLookup str st)"
proof -
  let ?P = "\<lambda>(key, entry). key = getCharacterKey str (entry_accountName entry) (entry_characterId entry)"
  have "list_all ?P (characterLookup (rebuildCharacterLookup str st))"
    unfolding rebuildCharacterLookup_def Let_def
    by (simp, rule lookup_fold_accounts) simp_all
  then show ?thesis
    using rebuild_excludes_source [of str st] by (simp add: prefsInvariant_def)
qed

lemma fold_skip_source:
  assumes "source \<notin> set targets"
  shows "source \<notin> set (fold (\<lambda>x targets.
                                let key = kf x
                                in if key = source then targets
                                   else if b then Set_add key targets
                                   else removeAll key targets) xs targets)"
  using assms by (induction xs arbitrary: targets) (auto simp: Let_def)

lemma fold_add_skip_source:
  assumes "source \<notin> set targets"
  shows "source \<notin> set (fold (\<lambda>key targets. if key \<noteq> source then Set_add key targets else targets)
                              keys targets)"
  using assms by (induction keys arbitrary: targets) auto

lemma prefsInvariant_step:
  assumes "prefsInvariant str st"
  shows "prefsInvariant str (prefs_step str ev st)"
proof (cases "sourceCharacterKey st = []")
  case True
  with assms show ?thesis
    by (cases ev)
      (auto simp: prefsInvariant_def targetCheckbox_onchange_def setAccountSelection_def
        handleSelectAllTargets_def handleClearAllTargets_def sourceCharacterSelect_onchange_def
        split: option.splits)
next
  case False
  with assms have src: "sourceCharacterKey st \<notin> set (selectedTargets st)"
    by (simp add: prefsInvariant_def)
  show ?thesis
  proof (cases ev)
    case (TargetCheckboxChange key checked)
    with assms src show ?thesis
      by (auto simp: prefsInvariant_def targetCheckbox_onchange_def)
  next
    case (AccountAllOrNone accName shouldSelect)
    with assms fold_skip_source [OF src, where kf = "\<lambda>ch. getCharacterKey str accName (char_id ch)"
        and b = shouldSelect]
    show ?thesis
      by (auto simp: prefsInvariant_def setAccountSelection_def split: option.splits)
  next
    case SelectAllTargets
    with assms fold_add_skip_source [OF src] show ?thesis
      by (auto simp: prefsInvariant_def handleSelectAllTargets_def)
  next
    case ClearAllTargets
    with assms show ?thesis by (simp add: prefsInvariant_def handleClearAllTargets_def)
  next
    case (SourceChange v)
    with assms show ?thesis by (simp add: prefsInvariant_def sourceCharacterSelect_onchange_def)
  qed
qed

lemma prefsInvariant_run:
  "prefsInvariant str st \<Longrightarrow> prefsInvariant str (fold (prefs_step str) events st)"
  by (induction events arbitrary: st) (simp_all add: prefsInvariant_step)

lemma source_not_in_payload:
  assumes inv: "prefsInvariant str st" and src: "getSourcePayload st = Some source"
  shows "source \<notin> set (buildTargetPayload st)"
proof
  assume "source \<in> set (buildTargetPayload st)"
  then obtain key where key: "key \<in> set (selectedTargets st)"
    and mem: "source \<in> set (case map_of (characterLookup st) key of
                              None \<Rightarrow> []
                            | Some entry \<Rightarrow> [(entry_accountName entry, entry_characterId entry)])"
    by (auto simp: buildTargetPayload_def)
  then obtain entry where entry: "map_of (characterLookup st) key = Some entry"
    and eq: "source = (entry_accountName entry, entry_characterId entry)"
    by (cases "map_of (characterLookup st) key") auto
  from src obtain sentry where nonempty: "sourceCharacterKey st \<noteq> []"
    and sentry: "map_of (characterLookup st) (sourceCharacterKey st) = Some sentry"
    and seq: "source = (entry_accountName sentry, entry_characterId sentry)"
    by (auto simp: getSourcePayload_def split: if_splits option.splits)
  from inv have keys: "\<And>k e. (k, e) \<in> set (characterLookup st) \<Longrightarrow>
      k = getCharacterKey str (entry_accountName e) (entry_characterId e)"
    by (auto simp: prefsInvariant_def list_all_iff)
  have "key = getCharacterKey str (entry_accountName entry) (entry_characterId entry)"
    by (rule keys) (rule map_of_SomeD [OF entry])
  moreover have "sourceCharacterKey st
      = getCharacterKey str (entry_accountName sentry) (entry_characterId sentry)"
    by (rule keys) (rule map_of_SomeD [OF sentry])
  ultimately have "key = sourceCharacterKey st" using eq seq by simp
  with key inv nonempty show False by (simp add: prefsInvariant_def)
qed

text \<open>
  Claim C7. Whatever the stored roster and source key and whatever the user does on the page,
  a copy request never lists its source character (account name and character id) among its
  targets. The exclusion is established again whenever the source changes: after choosing a
  source, its key is not a selected target, from any state; and after
  \<^verbatim>\<open>rebuildCharacterLookup\<close> the source key is not a selected target either.
\<close>

theorem source_never_among_targets:
  "(handleCopyPreferences basePath items backup
       (fold (prefs_step str) events (initialise str accs storedKey)) = Inr request
      \<longrightarrow> copy_source request \<notin> set (copy_targets request))
   \<and> (v \<noteq> [] \<longrightarrow>
        sourceCharacterKey (sourceCharacterSelect_onchange v st) = v \<and>
        v \<notin> set (selectedTargets (sourceCharacterSelect_onchange v st)))
   \<and> sourceCharacterKey (rebuildCharacterLookup str st)
        \<notin> set (selectedTargets (rebuildCharacterLookup str st))"
proof (intro conjI impI)
  let ?st = "fold (prefs_step str) events (initialise str accs storedKey)"
  assume req: "handleCopyPreferences basePath items backup ?st = Inr request"
  have inv: "prefsInvariant str ?st"
    unfolding initialise_def by (intro prefsInvariant_run prefsInvariant_rebuild)
  from req obtain source where "getSourcePayload ?st = Some source"
    and "copy_source request = source" and "copy_targets request = buildTargetPayload ?st"
    by (auto simp: handleCopyPreferences_def split: if_splits option.splits)
  with source_not_in_payload [OF inv] show "copy_source request \<notin> set (copy_targets request)"
    by simp
next
  assume "v \<noteq> []"
  then show "sourceCharacterKey (sourceCharacterSelect_onchange v st) = v"
    and "v \<notin> set (selectedTargets (sourceCharacterSelect_onchange v st))"
    by (simp_all add: sourceCharacterSelect_onchange_def)
next
  show "sourceCharacterKey (rebuildCharacterLookup str st)
        \<notin> set (selectedTargets (rebuildCharacterLookup str st))"
    by (rule rebuild_excludes_source)
qed

theorem source_never_among_targets_witness:
  "handleCopyPreferences ''C:/prefs'' [''charCfg''] True
     (fold (prefs_step idString)
        [SelectAllTargets, SourceChange ''B::3'', TargetCheckboxChange ''B::3'' True]
        (initialise idString
           [\<lparr>acc_name = ''A'', password = ''p'', characters =
              [\<lparr>char_name = ''Alice'', char_id = IdNumber (Num 15), selected = False, comment = None\<rparr>,
               \<lparr>char_name = ''Bob'', char_id = IdNumber (Num 207), selected = False, comment = None\<rparr>]\<rparr>,
            \<lparr>acc_name = ''B'', password = ''q'', characters =
              [\<lparr>char_name = ''Carl'', char_id = IdNumber (Num 3), selected = False, comment = None\<rparr>]\<rparr>]
           ''A::15''))
   = Inr \<lparr>prefsBasePath = ''C:/prefs'', copy_source = (''B'', IdNumber (Num 3)), copy_targets = [(''A'', IdNumber (Num 207))],
          copy_items = [''charCfg''], createBackup = True\<rparr>
   \<and> copy_source \<lparr>prefsBasePath = ''C:/prefs'', copy_source = (''B'', IdNumber (Num 3)), copy_targets = [(''A'', IdNumber (Num 207))],
          copy_items = [''charCfg''], createBackup = True\<rparr>
     \<notin> set (copy_targets \<lparr>prefsBasePath = ''C:/prefs'', copy_source = (''B'', IdNumber (Num 3)),
          copy_targets = [(''A'', IdNumber (Num 207))], copy_items = [''charCfg''], createBackup = True\<rparr>)"
proof -
  let ?R = "[\<lparr>acc_name = ''A'', password = ''p'', characters =
              [\<lparr>char_name = ''Alice'', char_id = IdNumber (Num 15), selected = False, comment = None\<rparr>,
               \<lparr>char_name = ''Bob'', char_id = IdNumber (Num 207), selected = False, comment = None\<rparr>]\<rparr>,
            \<lparr>acc_name = ''B'', password = ''q'', characters =
              [\<lparr>char_name = ''Carl'', char_id = IdNumber (Num 3), selected = False, comment = None\<rparr>]\<rparr>]"
  let ?evs = "[SelectAllTargets, SourceChange ''B::3'', TargetCheckboxChange ''B::3'' True]"
  let ?req = "\<lparr>prefsBasePath = ''C:/prefs'', copy_source = (''B'', IdNumber (Num 3)), copy_targets = [(''A'', IdNumber (Num 207))],
          copy_items = [''charCfg''], createBackup = True\<rparr>"
  have run: "handleCopyPreferences ''C:/prefs'' [''charCfg''] True
     (fold (prefs_step idString) ?evs (initialise idString ?R ''A::15'')) = Inr ?req"
    by code_simp
  from source_never_among_targets [where basePath = "''C:/prefs''" and items = "[''charCfg'']"
      and backup = True and str = idString and events = ?evs and accs = ?R and storedKey = "''A::15''"
      and request = ?req and v = "''B::3''"] run
  have "copy_source ?req \<notin> set (copy_targets ?req)" by blast
  with run show ?thesis by (simp only: simp_thms)
qed

section \<open>Exporting and loading the configuration\<close>

lemma asCharacter_toJSON:
  assumes "char_id ch \<noteq> IdNumber NaN" and "char_id ch \<noteq> IdNumber PosInfinity" and "char_id ch \<noteq> IdNumber NegInfinity"
  shows "asCharacter (characterToJSON ch) = Some ch"
  using assms
  by (cases "char_id ch" rule: idToJSON.cases; cases "comment ch")
     (simp_all add: asCharacter_def characterToJSON_def)

lemma those_map_Some:
  "(\<And>x. x \<in> set xs \<Longrightarrow> f (g x) = Some x) \<Longrightarrow> those (map (f \<circ> g) xs) = Some xs"
  by (induction xs) simp_all

lemma asAccount_toJSON:
  assumes "list_all (\<lambda>c. char_id c \<noteq> IdNumber NaN \<and> char_id c \<noteq> IdNumber PosInfinity \<and> char_id c \<noteq> IdNumber NegInfinity)
             (characters a)"
  shows "asAccount (accountToJSON a) = Some a"
proof -
  have "those (map (asCharacter \<circ> characterToJSON) (characters a)) = Some (characters a)"
    using assms by (intro those_map_Some asCharacter_toJSON) (simp_all add: list_all_iff)
  then show ?thesis by (simp add: asAccount_def accountToJSON_def)
qed

lemma field_id_toJSON: "field ''id'' (characterToJSON ch) = Some (idToJSON (char_id ch))"
  by (simp add: characterToJSON_def)

lemma migrateCharacter_toJSON [simp]: "migrateCharacter parseInt (characterToJSON ch) = characterToJSON ch"
  unfolding migrateCharacter_def field_id_toJSON
  by (cases "char_id ch" rule: idToJSON.cases) simp_all

lemma migrateAccount_toJSON [simp]: "migrateAccount parseInt (accountToJSON a) = Inr (accountToJSON a)"
proof -
  have "JNull \<notin> set (map characterToJSON (characters a))" by (auto simp: characterToJSON_def)
  moreover have "map (migrateCharacter parseInt) (map characterToJSON (characters a))
                 = map characterToJSON (characters a)"
    by simp
  ultimately show ?thesis by (simp add: migrateAccount_def accountToJSON_def del: map_map)
qed

lemma migrateAccounts_toJSON [simp]:
  "migrateAccounts parseInt (map accountToJSON accs) = Inr (map accountToJSON accs)"
  by (induction accs) simp_all

text \<open>
  Claim C9, as stated, fails. The add-character dialog accepts a blank answer for the id:
  \<^verbatim>\<open>isNaN\<close> reads it as 0 and \<^verbatim>\<open>parseInt\<close> as \<^verbatim>\<open>NaN\<close>, which is stored. The exported document
  has \<^verbatim>\<open>null\<close> in its place, and loading leaves \<^verbatim>\<open>null\<close> there: the character comes back
  with another id. The same happens to an answer of 309 nines, which both built-ins read as
  \<^verbatim>\<open>Infinity\<close>.
\<close>

theorem export_then_load_counterexample:
  "addChar_onclick codeUnitOrder isNaN_string parseInt10 0 (Some ''Zed'') (Some '' '')
     [\<lparr>acc_name = ''A'', password = ''p'', characters = []\<rparr>]
   = Inr ([\<lparr>acc_name = ''A'', password = ''p'', characters =
             [\<lparr>char_name = ''Zed'', char_id = IdNumber NaN, selected = False, comment = Some []\<rparr>]\<rparr>], [])
   \<and> settingsToJSON
       \<lparr>gameFolder = ''C:/AO'', dllFolder = ''C:/dll'',
         accounts =
           [\<lparr>acc_name = ''A'', password = ''p'', characters =
              [\<lparr>char_name = ''Zed'', char_id = IdNumber NaN, selected = False, comment = Some []\<rparr>]\<rparr>],
         autoCycle = False\<rparr>
     = JObject
         [(''gameFolder'', JString ''C:/AO''), (''dllFolder'', JString ''C:/dll''),
          (''accounts'',
           JArray
             [JObject
                [(''name'', JString ''A''), (''password'', JString ''p''),
                 (''characters'',
                  JArray
                    [JObject [(''name'', JString ''Zed''), (''id'', JNull), (''selected'', JBool False),
                              (''comment'', JString [])]])]]),
          (''autoCycle'', JBool False)]
   \<and> loadConfig codeUnitOrder parseInt10
       (settingsToJSON
          \<lparr>gameFolder = ''C:/AO'', dllFolder = ''C:/dll'',
            accounts =
              [\<lparr>acc_name = ''A'', password = ''p'', characters =
                 [\<lparr>char_name = ''Zed'', char_id = IdNumber NaN, selected = False, comment = Some []\<rparr>]\<rparr>],
            autoCycle = False\<rparr>)
     = Inr \<lparr>gameFolder = ''C:/AO'', dllFolder = ''C:/dll'',
            accounts =
              [\<lparr>acc_name = ''A'', password = ''p'', characters =
                 [\<lparr>char_name = ''Zed'', char_id = IdNull, selected = False, comment = Some []\<rparr>]\<rparr>],
            autoCycle = False\<rparr>
   \<and> addChar_onclick codeUnitOrder isNaN_string parseInt10 0 (Some ''Zed'')
       (Some (replicate 309 (CHR ''9'')))
       [\<lparr>acc_name = ''A'', password = ''p'', characters = []\<rparr>]
     = Inr ([\<lparr>acc_name = ''A'', password = ''p'', characters =
               [\<lparr>char_name = ''Zed'', char_id = IdNumber PosInfinity, selected = False,
                 comment = Some []\<rparr>]\<rparr>], [])
   \<and> loadConfig codeUnitOrder parseInt10
       (settingsToJSON
          \<lparr>gameFolder = ''C:/AO'', dllFolder = ''C:/dll'',
            accounts =
              [\<lparr>acc_name = ''A'', password = ''p'', characters =
                 [\<lparr>char_name = ''Zed'', char_id = IdNumber PosInfinity, selected = False,
                   comment = Some []\<rparr>]\<rparr>],
            autoCycle = False\<rparr>)
     = Inr \<lparr>gameFolder = ''C:/AO'', dllFolder = ''C:/dll'',
            accounts =
              [\<lparr>acc_name = ''A'', password = ''p'', characters =
                 [\<lparr>char_name = ''Zed'', char_id = IdNull, selected = False, comment = Some []\<rparr>]\<rparr>],
            autoCycle = False\<rparr>"
  by code_simp

text \<open>
  Claim C9, amended. For settings in which no character id is \<^verbatim>\<open>NaN\<close> or an infinity,
  loading the document that was exported from them gives the settings back with the roster
  in display order: the folders and the auto-cycle flag are the same, and the roster has the
  same accounts with the same passwords and the same characters (names, ids, comments,
  selected flags), the name sort of \<^verbatim>\<open>renderUI\<close> having been applied.
\<close>

theorem export_then_load:
  assumes "list_all (\<lambda>a. list_all (\<lambda>c. char_id c \<noteq> IdNumber NaN \<and> char_id c \<noteq> IdNumber PosInfinity \<and>
                                       char_id c \<noteq> IdNumber NegInfinity) (characters a))
             (accounts s)"
  shows "loadConfig collate parseInt (settingsToJSON s) = Inr (s\<lparr>accounts := renderUI collate (accounts s)\<rparr>)
         \<and> roster_view (renderUI collate (accounts s)) = roster_view (accounts s)"
proof -
  have "those (map (asAccount \<circ> accountToJSON) (accounts s)) = Some (accounts s)"
    using assms by (intro those_map_Some asAccount_toJSON) (simp add: list_all_iff)
  then show ?thesis by (simp add: loadConfig_def settingsToJSON_def asSettings_def)
qed

theorem export_then_load_witness:
  "loadConfig codeUnitOrder parseInt10
     (settingsToJSON
        \<lparr>gameFolder = ''C:/AO'', dllFolder = ''C:/dll'',
          accounts =
            [\<lparr>acc_name = ''B'', password = ''p'', characters =
               [\<lparr>char_name = ''Bob'', char_id = IdNumber (Num 207), selected = True, comment = Some ''main''\<rparr>,
                \<lparr>char_name = ''Alice'', char_id = IdNumber (Num 15), selected = False, comment = None\<rparr>]\<rparr>,
             \<lparr>acc_name = ''A'', password = ''q'', characters =
               [\<lparr>char_name = ''Carl'', char_id = IdNumber (Num 3), selected = True, comment = None\<rparr>]\<rparr>],
          autoCycle = True\<rparr>)
   = Inr \<lparr>gameFolder = ''C:/AO'', dllFolder = ''C:/dll'',
          accounts =
            [\<lparr>acc_name = ''A'', password = ''q'', characters =
               [\<lparr>char_name = ''Carl'', char_id = IdNumber (Num 3), selected = True, comment = None\<rparr>]\<rparr>,
             \<lparr>acc_name = ''B'', password = ''p'', characters =
               [\<lparr>char_name = ''Alice'', char_id = IdNumber (Num 15), selected = False, comment = None\<rparr>,
                \<lparr>char_name = ''Bob'', char_id = IdNumber (Num 207), selected = True, comment = Some ''main''\<rparr>]\<rparr>],
          autoCycle = True\<rparr>"
proof -
  let ?R = "[\<lparr>acc_name = ''B'', password = ''p'', characters =
               [\<lparr>char_name = ''Bob'', char_id = IdNumber (Num 207), selected = True, comment = Some ''main''\<rparr>,
                \<lparr>char_name = ''Alice'', char_id = IdNumber (Num 15), selected = False, comment = None\<rparr>]\<rparr>,
             \<lparr>acc_name = ''A'', password = ''q'', characters =
               [\<lparr>char_name = ''Carl'', char_id = IdNumber (Num 3), selected = True, comment = None\<rparr>]\<rparr>]"
  have sorted: "renderUI codeUnitOrder ?R
    = [\<lparr>acc_name = ''A'', password = ''q'', characters =
               [\<lparr>char_name = ''Carl'', char_id = IdNumber (Num 3), selected = True, comment = None\<rparr>]\<rparr>,
             \<lparr>acc_name = ''B'', password = ''p'', characters =
               [\<lparr>char_name = ''Alice'', char_id = IdNumber (Num 15), selected = False, comment = None\<rparr>,
                \<lparr>char_name = ''Bob'', char_id = IdNumber (Num 207), selected = True, comment = Some ''main''\<rparr>]\<rparr>]"
    by code_simp
  have h: "list_all (\<lambda>a. list_all (\<lambda>c. char_id c \<noteq> IdNumber NaN \<and> char_id c \<noteq> IdNumber PosInfinity \<and>
                                         char_id c \<noteq> IdNumber NegInfinity) (characters a))
             (accounts \<lparr>gameFolder = ''C:/AO'', dllFolder = ''C:/dll'', accounts = ?R, autoCycle = True\<rparr>)"
    by simp
  from export_then_load [OF h, where collate = codeUnitOrder and parseInt = parseInt10]
  show ?thesis by (simp add: sorted)
qed

end
